theory Spec2Isabelle
  imports Main "HOL-Library.Word" "HOL-Library.Sublist"
begin

unbundle bit_operations_syntax

section \<open>Errors\<close>

text \<open>
  The error values of package os that the client produces (\<open>os.ErrNotExist\<close>,
  \<open>os.ErrExist\<close>, \<open>os.ErrPermission\<close>, \<open>os.ErrInvalid\<close>), an error made by
  \<open>fmt.Errorf\<close> (its text), the error of a failed \<open>httpClient.Do\<close> and the error of
  the XML decoder.
\<close>

datatype errno =
    ErrNotExist
  | ErrExist
  | ErrPermission
  | ErrInvalid
  | Errorf string
  | ErrTransport string
  | ErrXML

text \<open>
  The error types of the package: \<open>os.PathError\<close> (Op, Path, Err), \<open>WebDAVError\<close>
  (StatusCode, Method, Path, Message), \<open>ConfigError\<close> (Field, Reason),
  \<open>FileClosedError\<close> (Path), \<open>InvalidSeekError\<close> (Offset, Whence), \<open>io.EOF\<close>, and
  the run-time panic of a method call on a nil interface value.
\<close>

datatype error =
    PathError string string errno
  | WebDAVError int string string string
  | ConfigError string string
  | FileClosedError string
  | InvalidSeekError "64 word" int
  | EOF
  | Panic

text \<open>\<open>os.IsNotExist\<close>: unwraps a \<open>PathError\<close> and compares with \<open>ErrNotExist\<close>.\<close>

fun IsNotExist :: "error \<Rightarrow> bool" where
  "IsNotExist (PathError _ _ ErrNotExist) = True"
| "IsNotExist _ = False"

fun IsExist :: "error \<Rightarrow> bool" where
  "IsExist (PathError _ _ ErrExist) = True"
| "IsExist _ = False"

fun IsPermission :: "error \<Rightarrow> bool" where
  "IsPermission (PathError _ _ ErrPermission) = True"
| "IsPermission _ = False"

section \<open>Formatting integers\<close>

text \<open>The verb \<open>%d\<close> of package fmt on an \<open>int\<close>: decimal digits, a minus sign
  before a negative number.\<close>

definition digit_char :: "nat \<Rightarrow> char" where
  "digit_char d = ''0123456789'' ! d"

fun fmt_nat :: "nat \<Rightarrow> string" where
  "fmt_nat n = (if n < 10 then [digit_char n] else fmt_nat (n div 10) @ [digit_char (n mod 10)])"

definition fmt_d :: "int \<Rightarrow> string" where
  "fmt_d i = (if i < 0 then CHR ''-'' # fmt_nat (nat (- i)) else fmt_nat (nat i))"

section \<open>The error mapper\<close>

definition httpStatusToOSError :: "int \<Rightarrow> string \<Rightarrow> error" where
  "httpStatusToOSError statusCode path =
     (if statusCode = 404 then PathError ''stat'' path ErrNotExist
      else if statusCode = 403 then PathError ''access'' path ErrPermission
      else if statusCode = 409 then PathError ''create'' path ErrNotExist
      else if statusCode = 412 then PathError ''create'' path ErrExist
      else if statusCode = 423 then PathError ''access'' path ErrPermission
      else if statusCode = 507 then PathError ''write'' path (Errorf ''insufficient storage'')
      else PathError ''webdav'' path (Errorf (''http status '' @ fmt_d statusCode)))"

section \<open>Configuration\<close>

text \<open>The struct \<open>Config\<close>. \<open>HTTPClient\<close> is a pointer: the field says whether it is
  set. \<open>Timeout\<close> is a \<open>time.Duration\<close>, a 64-bit count of nanoseconds.\<close>

record Config =
  URL :: string
  Username :: string
  Password :: string
  BearerToken :: string
  HTTPClient :: bool
  Timeout :: "64 word"
  TempDir :: string

text \<open>\<open>validate\<close>: \<open>None\<close> is the nil error.\<close>

definition validate :: "Config \<Rightarrow> error option" where
  "validate c =
     (if URL c = [] then Some (ConfigError ''URL'' ''URL is required'')
      else if BearerToken c \<noteq> [] \<and> (Username c \<noteq> [] \<or> Password c \<noteq> [])
      then Some (ConfigError ''Authentication''
                   ''BearerToken and Username/Password are mutually exclusive'')
      else None)"

definition isConfigError :: "error \<Rightarrow> bool" where
  "isConfigError e = (case e of ConfigError _ _ \<Rightarrow> True | _ \<Rightarrow> False)"

section \<open>Packages strings and path\<close>

definition HasPrefix :: "string \<Rightarrow> string \<Rightarrow> bool" where
  "HasPrefix s p = (take (length p) s = p)"

definition HasSuffix :: "string \<Rightarrow> string \<Rightarrow> bool" where
  "HasSuffix s x = (length x \<le> length s \<and> drop (length s - length x) s = x)"

definition TrimPrefix :: "string \<Rightarrow> string \<Rightarrow> string" where
  "TrimPrefix s p = (if HasPrefix s p then drop (length p) s else s)"

text \<open>
  \<open>path.Clean\<close> scans its argument element by element, an element being a maximal run
  of bytes other than the separator. \<open>splitSlash\<close> gives the elements between the
  separators, the empty ones included; \<open>joinSlash\<close> writes elements with one separator
  between two of them.
\<close>

fun splitSlash :: "string \<Rightarrow> string list" where
  "splitSlash [] = [[]]"
| "splitSlash (c # cs) =
     (if c = CHR ''/'' then [] # splitSlash cs
      else (c # hd (splitSlash cs)) # tl (splitSlash cs))"

fun joinSlash :: "string list \<Rightarrow> string" where
  "joinSlash [] = []"
| "joinSlash [e] = e"
| "joinSlash (e # es) = e @ CHR ''/'' # joinSlash es"

text \<open>
  One turn of the loop of \<open>path.Clean\<close>. The output buffer is kept as the number of
  leading \<open>..\<close> elements written to it (the part below the index \<open>dotdot\<close> of the
  source, which is never removed) and the list of the elements after them. An empty
  element and \<open>.\<close> are skipped; \<open>..\<close> removes the last element when there is one
  (\<open>out.w > dotdot\<close>), is written to the buffer when the path is not rooted, and is
  dropped when it is; any other element is appended.
\<close>

fun cleanStep :: "bool \<Rightarrow> nat \<times> string list \<Rightarrow> string \<Rightarrow> nat \<times> string list" where
  "cleanStep rooted (dotdot, out) e =
     (if e = [] \<or> e = ''.'' then (dotdot, out)
      else if e = ''..'' then
        (if out \<noteq> [] then (dotdot, butlast out)
         else if \<not> rooted then (Suc dotdot, [])
         else (dotdot, out))
      else (dotdot, out @ [e]))"

text \<open>The contents of the buffer: the leading separator of a rooted path, then the
  elements.\<close>

definition cleanOut :: "bool \<Rightarrow> nat \<times> string list \<Rightarrow> string" where
  "cleanOut rooted st =
     (if rooted then CHR ''/'' # joinSlash (snd st)
      else joinSlash (replicate (fst st) ''..'' @ snd st))"

definition cleanState :: "string \<Rightarrow> nat \<times> string list" where
  "cleanState p = foldl (cleanStep (hd p = CHR ''/'')) (0, []) (splitSlash p)"

definition Clean :: "string \<Rightarrow> string" where
  "Clean path =
     (if path = [] then ''.''
      else let out = cleanOut (hd path = CHR ''/'') (cleanState path)
           in if out = [] then ''.'' else out)"

text \<open>\<open>path.Join\<close>: the loop that fills the buffer, then \<open>Clean\<close>.\<close>

fun joinBuf :: "string \<Rightarrow> string list \<Rightarrow> string" where
  "joinBuf buf [] = buf"
| "joinBuf buf (e # es) =
     joinBuf (if buf \<noteq> [] \<or> e \<noteq> []
              then (if buf \<noteq> [] then buf @ ''/'' else buf) @ e
              else buf) es"

definition Join :: "string list \<Rightarrow> string" where
  "Join elem = (if concat elem = [] then [] else Clean (joinBuf [] elem))"

text \<open>\<open>path.Base\<close>: trailing separators are stripped, then everything up to the last
  separator; a path of separators only gives the separator.\<close>

definition Base :: "string \<Rightarrow> string" where
  "Base path =
     (if path = [] then ''.''
      else let p = rev (dropWhile (\<lambda>c. c = CHR ''/'') (rev path));
               q = rev (takeWhile (\<lambda>c. c \<noteq> CHR ''/'') (rev p))
           in if q = [] then ''/'' else q)"

definition IsAbs :: "string \<Rightarrow> bool" where
  "IsAbs path = (path \<noteq> [] \<and> hd path = CHR ''/'')"

text \<open>The elements of a path that name something: what is left of \<open>splitSlash\<close>
  without the empty elements and \<open>.\<close>.\<close>

definition elements :: "string \<Rightarrow> string list" where
  "elements p = filter (\<lambda>e. e \<noteq> [] \<and> e \<noteq> ''.'') (splitSlash p)"

definition realElem :: "string \<Rightarrow> bool" where
  "realElem e = (e \<noteq> [] \<and> e \<noteq> ''.'' \<and> e \<noteq> ''..'' \<and> CHR ''/'' \<notin> set e)"

definition stateElems :: "bool \<Rightarrow> nat \<times> string list \<Rightarrow> string list" where
  "stateElems rooted st = (if rooted then snd st else replicate (fst st) ''..'' @ snd st)"

section \<open>Package strconv\<close>

text \<open>\<open>strconv.ParseInt(s, 10, 64)\<close>: an optional sign, then one or more decimal
  digits; \<open>None\<close> is the syntax error and the range error.\<close>

definition isDigit :: "char \<Rightarrow> bool" where
  "isDigit c = (48 \<le> (of_char c :: nat) \<and> (of_char c :: nat) \<le> 57)"

fun parseDigits :: "nat \<Rightarrow> string \<Rightarrow> nat option" where
  "parseDigits acc [] = Some acc"
| "parseDigits acc (c # cs) =
     (if isDigit c then parseDigits (acc * 10 + (of_char c - 48)) cs else None)"

definition ParseInt :: "string \<Rightarrow> int option" where
  "ParseInt s =
     (if s = [] then None
      else let neg = (hd s = CHR ''-'');
               ds = (if hd s = CHR ''+'' \<or> hd s = CHR ''-'' then tl s else s)
           in if ds = [] then None
              else case parseDigits 0 ds of
                     None \<Rightarrow> None
                   | Some n \<Rightarrow>
                       let v = (if neg then - int n else int n)
                       in if - (2 ^ 63) \<le> v \<and> v < 2 ^ 63 then Some v else None)"

section \<open>The multistatus document and file information\<close>

text \<open>The structs of properties.go (\<open>davprop\<close> is the struct \<open>prop\<close>). \<open>Collection\<close> is a pointer in the source: the
  field says whether it is set.\<close>

record resourceType =
  Collection :: bool

record davprop =
  DisplayName :: string
  GetContentLength :: string
  GetLastModified :: string
  ResourceType :: resourceType
  GetETag :: string
  GetContentType :: string
  CreationDate :: string

record propstat =
  Prop :: davprop
  Status :: string

record response =
  Href :: string
  Propstat :: propstat

record multistatus =
  Responses :: "response list"

text \<open>The struct \<open>fileInfo\<close>: \<open>size\<close> is an \<open>int64\<close>, \<open>mode\<close> an
  \<open>os.FileMode\<close> (32 bits), \<open>modTime\<close> a point in time, counted in nanoseconds.\<close>

record fileInfo =
  fi_name :: string
  fi_size :: "64 word"
  fi_mode :: "32 word"
  fi_modTime :: int
  fi_isDir :: bool

definition ModeDir :: "32 word" where
  "ModeDir = push_bit 31 1"

section \<open>The world outside the package\<close>

text \<open>
  A request as \<open>doRequest\<close> hands it to the HTTP client: the method, the path of the
  URL that \<open>buildURL\<close> made, the Authorization header, the other headers and the whole
  body.
\<close>

datatype auth = NoAuth | Bearer string | Basic string string

record request =
  Method :: string
  url :: string
  authorization :: auth
  header :: "(string \<times> string) list"
  body :: string

text \<open>
  What \<open>httpClient.Do\<close> gives back: \<open>Failed msg n\<close> is an error of the transport
  after it had read \<open>n\<close> bytes of the request body; \<open>Response code text xml n\<close> is a
  response with its status code, the text of its body and what the XML decoder makes of
  that body as a multistatus document (\<open>None\<close> when it does not decode), delivered
  after the transport had read \<open>n\<close> bytes of the request body. A server may answer
  before it has read the body to its end, so \<open>n\<close> can be less than the length of the
  body; what the transport has not read stays in the body reader.
\<close>

datatype reply =
    Failed string nat
  | Response int string "multistatus option" nat

record httpResponse =
  StatusCode :: int
  BodyText :: string
  BodyXML :: "multistatus option"

text \<open>
  The collaborators outside the package: the HTTP client with the remote server behind
  it, whose reply may depend on every request sent before (the history), and package time
  (\<open>time.Parse\<close> of a layout and a value, \<open>time.Now\<close>, and \<open>Format\<close> of a time in
  UTC).
\<close>

record env =
  Do :: "request list \<Rightarrow> request \<Rightarrow> reply"
  time_Parse :: "string \<Rightarrow> string \<Rightarrow> int option"
  time_Now :: "request list \<Rightarrow> int"
  time_Format :: "string \<Rightarrow> int \<Rightarrow> string"

definition RFC1123 :: string where
  "RFC1123 = ''Mon, 02 Jan 2006 15:04:05 MST''"

definition RFC3339 :: string where
  "RFC3339 = ''2006-01-02T15:04:05Z07:00''"

definition RFC1123Z :: string where
  "RFC1123Z = ''Mon, 02 Jan 2006 15:04:05 -0700''"

section \<open>The property codec\<close>

fun firstLayout :: "env \<Rightarrow> string list \<Rightarrow> string \<Rightarrow> error + int" where
  "firstLayout e [] s = Inl (PathError ''parse'' s ErrInvalid)"
| "firstLayout e (format # formats) s =
     (case time_Parse e format s of Some t \<Rightarrow> Inr t | None \<Rightarrow> firstLayout e formats s)"

definition parseWebDAVTime :: "env \<Rightarrow> string \<Rightarrow> error + int" where
  "parseWebDAVTime e s =
     (case time_Parse e RFC1123 s of
        Some t \<Rightarrow> Inr t
      | None \<Rightarrow>
          (case time_Parse e RFC3339 s of
             Some t \<Rightarrow> Inr t
           | None \<Rightarrow>
               firstLayout e [''Mon, 02 Jan 2006 15:04:05 MST'', ''Mon, 02 Jan 2006 15:04:05 GMT'',
                              ''2006-01-02T15:04:05Z'', RFC1123Z] s))"

text \<open>\<open>parseFileInfo\<close>. It has no failing path: the result is always \<open>Inr\<close>.
  The modes are octal 0755 (\<open>0x1ED\<close>) and octal 0644 (\<open>0x1A4\<close>).\<close>

definition parseFileInfo :: "env \<Rightarrow> request list \<Rightarrow> response \<Rightarrow> string \<Rightarrow> error + fileInfo" where
  "parseFileInfo e h resp basePath =
     (let href = TrimPrefix (Href resp) ''/'';
          name0 = Base href;
          name = (if name0 = [] \<or> name0 = ''/'' then Base basePath else name0);
          len = GetContentLength (Prop (Propstat resp));
          size = (if len \<noteq> []
                  then (case ParseInt len of Some v \<Rightarrow> word_of_int v | None \<Rightarrow> 0)
                  else 0);
          lm = GetLastModified (Prop (Propstat resp));
          modTime = (if lm \<noteq> []
                     then (case parseWebDAVTime e lm of Inr t \<Rightarrow> t | Inl _ \<Rightarrow> time_Now e h)
                     else time_Now e h);
          isDir = Collection (ResourceType (Prop (Propstat resp)));
          mode = (if isDir then 0x1ED OR ModeDir else 0x1A4)
      in Inr \<lparr>fi_name = name, fi_size = size, fi_mode = mode, fi_modTime = modTime,
               fi_isDir = isDir\<rparr>)"

definition nl :: string where
  "nl = [CHR 0x0A]"

definition buildPropfindBody :: string where
  \<open>buildPropfindBody =
     ''<?xml version="1.0" encoding="utf-8"?>'' @ nl @
     ''<D:propfind xmlns:D="DAV:">'' @ nl @
     ''  <D:prop>'' @ nl @
     ''    <D:displayname/>'' @ nl @
     ''    <D:getcontentlength/>'' @ nl @
     ''    <D:getlastmodified/>'' @ nl @
     ''    <D:resourcetype/>'' @ nl @
     ''    <D:getetag/>'' @ nl @
     ''    <D:getcontenttype/>'' @ nl @
     ''    <D:creationdate/>'' @ nl @
     ''  </D:prop>'' @ nl @
     ''</D:propfind>''\<close>

definition buildProppatchBody :: "env \<Rightarrow> int \<Rightarrow> string" where
  \<open>buildProppatchBody e modTime =
     ''<?xml version="1.0" encoding="utf-8"?>'' @ nl @
     ''<D:propertyupdate xmlns:D="DAV:">'' @ nl @
     ''  <D:set>'' @ nl @
     ''    <D:prop>'' @ nl @
     ''      <D:getlastmodified>'' @ time_Format e RFC1123 modTime @ ''</D:getlastmodified>'' @ nl @
     ''    </D:prop>'' @ nl @
     ''  </D:set>'' @ nl @
     ''</D:propertyupdate>''\<close>

section \<open>The protocol client\<close>

text \<open>The struct \<open>webdavClient\<close>: \<open>basePath\<close> is the path of \<open>baseURL\<close>, to which
  \<open>newWebDAVClient\<close> has appended a separator when it did not end with one. The HTTP
  client is the field \<open>Do\<close> of the environment.\<close>

record webdavClient =
  basePath :: string
  username :: string
  password :: string
  bearerToken :: string

text \<open>\<open>buildURL\<close>, as the path of the URL it returns. Parsing the text of the base
  URL again gives the base URL back: that step has no failing branch here.\<close>

definition buildURL :: "webdavClient \<Rightarrow> string \<Rightarrow> string" where
  "buildURL c pathStr =
     (let pathStr = Clean (CHR ''/'' # TrimPrefix pathStr ''/'')
      in Join [basePath c, pathStr])"

definition newRequest :: "webdavClient \<Rightarrow> string \<Rightarrow> string \<Rightarrow> string
    \<Rightarrow> (string \<times> string) list \<Rightarrow> request" where
  "newRequest c meth pathStr bdy headers =
     \<lparr>Method = meth, url = buildURL c pathStr,
      authorization =
        (if bearerToken c \<noteq> [] then Bearer (bearerToken c)
         else if username c \<noteq> [] \<or> password c \<noteq> [] then Basic (username c) (password c)
         else NoAuth),
      header = headers, body = bdy\<rparr>"

text \<open>\<open>doRequest\<close> returns the history with the request added, what is left unread
  of the body reader, and the response or the error.\<close>

definition doRequest :: "env \<Rightarrow> webdavClient \<Rightarrow> string \<Rightarrow> string \<Rightarrow> string
    \<Rightarrow> (string \<times> string) list \<Rightarrow> request list
    \<Rightarrow> request list \<times> string \<times> (error + httpResponse)" where
  "doRequest e c meth pathStr bdy headers h =
     (let req = newRequest c meth pathStr bdy headers
      in case Do e h req of
           Failed msg n \<Rightarrow>
             (h @ [req], drop n bdy, Inl (PathError meth pathStr (ErrTransport msg)))
         | Response code text xml n \<Rightarrow>
             (h @ [req], drop n bdy,
              Inr \<lparr>StatusCode = code, BodyText = text, BodyXML = xml\<rparr>))"

definition propfind :: "env \<Rightarrow> webdavClient \<Rightarrow> string \<Rightarrow> int \<Rightarrow> request list
    \<Rightarrow> request list \<times> (error + multistatus)" where
  "propfind e c pathStr depth h =
     (case doRequest e c ''PROPFIND'' pathStr buildPropfindBody
             [(''Content-Type'', ''application/xml''), (''Depth'', fmt_d depth)] h of
        (h', _, Inl err) \<Rightarrow> (h', Inl err)
      | (h', _, Inr resp) \<Rightarrow>
          if StatusCode resp = 404 then (h', Inl (PathError ''stat'' pathStr ErrNotExist))
          else if StatusCode resp \<noteq> 207
          then (h', Inl (WebDAVError (StatusCode resp) ''PROPFIND'' pathStr (BodyText resp)))
          else (case BodyXML resp of
                  None \<Rightarrow> (h', Inl (PathError ''propfind'' pathStr ErrXML))
                | Some ms \<Rightarrow> (h', Inr ms)))"

definition stat :: "env \<Rightarrow> webdavClient \<Rightarrow> string \<Rightarrow> request list
    \<Rightarrow> request list \<times> (error + fileInfo)" where
  "stat e c pathStr h =
     (case propfind e c pathStr 0 h of
        (h', Inl err) \<Rightarrow> (h', Inl err)
      | (h', Inr ms) \<Rightarrow>
          if Responses ms = [] then (h', Inl (PathError ''stat'' pathStr ErrNotExist))
          else (h', parseFileInfo e h' (hd (Responses ms)) pathStr))"

text \<open>The loop of \<open>readDir\<close>. The slice \<open>infos\<close> starts as nil (\<open>None\<close>) and
  becomes a slice with elements at the first \<open>append\<close>; an entry whose parse fails is
  skipped.\<close>

fun appendInfos :: "fileInfo list option \<Rightarrow> (error + fileInfo) list \<Rightarrow> fileInfo list option" where
  "appendInfos infos [] = infos"
| "appendInfos infos (Inl err # rs) = appendInfos infos rs"
| "appendInfos infos (Inr info # rs) =
     appendInfos (Some ((case infos of None \<Rightarrow> [] | Some xs \<Rightarrow> xs) @ [info])) rs"

definition readDir :: "env \<Rightarrow> webdavClient \<Rightarrow> string \<Rightarrow> request list
    \<Rightarrow> request list \<times> (error + fileInfo list option)" where
  "readDir e c pathStr h =
     (let pathStr = (if \<not> HasSuffix pathStr ''/'' then pathStr @ ''/'' else pathStr)
      in case propfind e c pathStr 1 h of
           (h', Inl err) \<Rightarrow> (h', Inl err)
         | (h', Inr ms) \<Rightarrow>
             if Responses ms = [] then (h', Inr (Some []))
             else (h', Inr (appendInfos None
                              (map (\<lambda>r. parseFileInfo e h' r pathStr) (tl (Responses ms))))))"

text \<open>\<open>put\<close> returns the history, what is left unread of \<open>data\<close>, and the error
  (\<open>None\<close> is nil).\<close>

definition put :: "env \<Rightarrow> webdavClient \<Rightarrow> string \<Rightarrow> string \<Rightarrow> request list
    \<Rightarrow> request list \<times> string \<times> error option" where
  "put e c pathStr data h =
     (case doRequest e c ''PUT'' pathStr data
             [(''Content-Type'', ''application/octet-stream'')] h of
        (h', rest, Inl err) \<Rightarrow> (h', rest, Some err)
      | (h', rest, Inr resp) \<Rightarrow>
          if StatusCode resp \<noteq> 201 \<and> StatusCode resp \<noteq> 204
          then (h', rest, Some (httpStatusToOSError (StatusCode resp) pathStr))
          else (h', rest, None))"

definition proppatch :: "env \<Rightarrow> webdavClient \<Rightarrow> string \<Rightarrow> int \<Rightarrow> request list
    \<Rightarrow> request list \<times> error option" where
  "proppatch e c pathStr modTime h =
     (case doRequest e c ''PROPPATCH'' pathStr (buildProppatchBody e modTime)
             [(''Content-Type'', ''application/xml'')] h of
        (h', _, Inl err) \<Rightarrow> (h', Some err)
      | (h', _, Inr resp) \<Rightarrow>
          if StatusCode resp \<noteq> 207 then (h', None) else (h', None))"

section \<open>The filesystem facade\<close>

text \<open>The open flags of package os, with the values they have on Linux, and the
  \<open>whence\<close> values of package io.\<close>

definition O_RDONLY :: int where "O_RDONLY = 0"
definition O_WRONLY :: int where "O_WRONLY = 1"
definition O_RDWR :: int where "O_RDWR = 2"
definition O_CREATE :: int where "O_CREATE = 0x40"
definition O_EXCL :: int where "O_EXCL = 0x80"
definition O_TRUNC :: int where "O_TRUNC = 0x200"
definition O_APPEND :: int where "O_APPEND = 0x400"

definition SeekStart :: int where "SeekStart = 0"
definition SeekCurrent :: int where "SeekCurrent = 1"
definition SeekEnd :: int where "SeekEnd = 2"

record FileSystem =
  client :: webdavClient
  root :: string
  cwd :: string
  tempDir :: string

text \<open>The struct \<open>File\<close>. \<open>info\<close> is an interface value and \<open>buffer\<close> a pointer
  (\<open>None\<close> is nil); \<open>reader\<close> is the open download stream, as the bytes it has yet to
  deliver; \<open>dirInfos\<close> is a slice (\<open>None\<close> is the nil slice, which the source takes
  for a listing not yet loaded).\<close>

record File =
  fs :: FileSystem
  path :: string
  flag :: int
  offset :: "64 word"
  info :: "fileInfo option"
  buffer :: "string option"
  modified :: bool
  closed :: bool
  reader :: "string option"
  dirIndex :: int
  dirInfos :: "fileInfo list option"

definition cleanPath :: "FileSystem \<Rightarrow> string \<Rightarrow> string" where
  "cleanPath fsys name =
     (if IsAbs name then Clean name else Clean (Join [cwd fsys, name]))"

text \<open>The handle that \<open>OpenFile\<close> builds at its end.\<close>

definition newFile :: "FileSystem \<Rightarrow> string \<Rightarrow> int \<Rightarrow> fileInfo \<Rightarrow> File" where
  "newFile fsys name flg fi =
     \<lparr>fs = fsys, path = name, flag = flg,
      offset = (if flg AND O_APPEND \<noteq> 0 then fi_size fi else 0),
      info = Some fi, buffer = None, modified = False, closed = False, reader = None,
      dirIndex = 0, dirInfos = None\<rparr>"

definition OpenFile :: "env \<Rightarrow> FileSystem \<Rightarrow> string \<Rightarrow> int \<Rightarrow> 32 word \<Rightarrow> request list
    \<Rightarrow> request list \<times> (error + File)" where
  "OpenFile e fsys name flg perm h =
     (let name = cleanPath fsys name
      in case stat e (client fsys) name h of
           (h1, Inl err) \<Rightarrow>
             if \<not> IsNotExist err then (h1, Inl err)
             else if flg AND O_CREATE = 0 then (h1, Inl (PathError ''open'' name ErrNotExist))
             else (case put e (client fsys) name [] h1 of
                     (h2, _, Some err) \<Rightarrow> (h2, Inl err)
                   | (h2, _, None) \<Rightarrow>
                       (case stat e (client fsys) name h2 of
                          (h3, Inl err) \<Rightarrow> (h3, Inl err)
                        | (h3, Inr fi) \<Rightarrow> (h3, Inr (newFile fsys name flg fi))))
         | (h1, Inr fi) \<Rightarrow>
             if flg AND O_CREATE \<noteq> 0 \<and> flg AND O_EXCL \<noteq> 0
             then (h1, Inl (PathError ''open'' name ErrExist))
             else if flg AND O_TRUNC \<noteq> 0 \<and> \<not> fi_isDir fi
             then (case put e (client fsys) name [] h1 of
                     (h2, _, Some err) \<Rightarrow> (h2, Inl err)
                   | (h2, _, None) \<Rightarrow> (h2, Inr (newFile fsys name flg fi)))
             else (h1, Inr (newFile fsys name flg fi)))"

definition Chtimes :: "env \<Rightarrow> FileSystem \<Rightarrow> string \<Rightarrow> int \<Rightarrow> int \<Rightarrow> request list
    \<Rightarrow> request list \<times> error option" where
  "Chtimes e fsys name atime mtime h =
     (let name = cleanPath fsys name in proppatch e (client fsys) name mtime h)"

section \<open>The file handle\<close>

text \<open>\<open>Write\<close>: the handle after the call, and the count or the error. Calling
  \<open>IsDir\<close> on the nil \<open>info\<close> panics.\<close>

definition Write :: "File \<Rightarrow> string \<Rightarrow> File \<times> (error + nat)" where
  "Write f b =
     (if closed f then (f, Inl (FileClosedError (path f)))
      else if flag f AND (O_WRONLY OR O_RDWR) = 0
      then (f, Inl (PathError ''write'' (path f) ErrInvalid))
      else case info f of
             None \<Rightarrow> (f, Inl Panic)
           | Some fi \<Rightarrow>
               if fi_isDir fi then (f, Inl (PathError ''write'' (path f) ErrInvalid))
               else let buf = (case buffer f of None \<Rightarrow> [] | Some x \<Rightarrow> x);
                        n = length b
                    in (f\<lparr>buffer := Some (buf @ b), offset := offset f + word_of_nat n,
                          modified := True\<rparr>, Inr n))"

text \<open>\<open>Close\<close> and \<open>Sync\<close> hand the buffer itself to \<open>put\<close> as the body reader:
  what \<open>put\<close> leaves unread is what the buffer holds afterwards.\<close>

definition Close :: "env \<Rightarrow> File \<Rightarrow> request list \<Rightarrow> request list \<times> File \<times> error option" where
  "Close e f h =
     (if closed f then (h, f, None)
      else let f = f\<lparr>closed := True\<rparr>
           in if modified f \<and> buffer f \<noteq> None
              then (case put e (client (fs f)) (path f) (the (buffer f)) h of
                      (h', rest, Some err) \<Rightarrow> (h', f\<lparr>buffer := Some rest\<rparr>, Some err)
                    | (h', rest, None) \<Rightarrow> (h', f\<lparr>buffer := Some rest\<rparr>, None))
              else (h, f, None))"

definition Sync :: "env \<Rightarrow> File \<Rightarrow> request list \<Rightarrow> request list \<times> File \<times> error option" where
  "Sync e f h =
     (if closed f then (h, f, Some (FileClosedError (path f)))
      else if modified f \<and> buffer f \<noteq> None
      then (case put e (client (fs f)) (path f) (the (buffer f)) h of
              (h', rest, Some err) \<Rightarrow> (h', f\<lparr>buffer := Some rest\<rparr>, Some err)
            | (h', rest, None) \<Rightarrow> (h', f\<lparr>buffer := Some rest, modified := False\<rparr>, None))
      else (h, f, None))"

text \<open>The end of \<open>Seek\<close>, after the \<open>switch\<close> has computed \<open>newOffset\<close> in 64-bit
  arithmetic.\<close>

definition seekTo :: "File \<Rightarrow> 64 word \<Rightarrow> int \<Rightarrow> 64 word \<Rightarrow> File \<times> (error + 64 word)" where
  "seekTo f off whence newOffset =
     (if sint newOffset < 0 then (f, Inl (InvalidSeekError off whence))
      else (f\<lparr>reader := (if reader f \<noteq> None \<and> newOffset \<noteq> offset f then None else reader f),
              offset := newOffset\<rparr>, Inr newOffset))"

definition Seek :: "env \<Rightarrow> File \<Rightarrow> 64 word \<Rightarrow> int \<Rightarrow> request list
    \<Rightarrow> request list \<times> File \<times> (error + 64 word)" where
  "Seek e f off whence h =
     (if closed f then (h, f, Inl (FileClosedError (path f)))
      else if whence = SeekStart then (h, seekTo f off whence off)
      else if whence = SeekCurrent then (h, seekTo f off whence (offset f + off))
      else if whence = SeekEnd then
        (case info f of
           None \<Rightarrow>
             (case stat e (client (fs f)) (path f) h of
                (h', Inl err) \<Rightarrow> (h', f, Inl err)
              | (h', Inr fi) \<Rightarrow> (h', seekTo (f\<lparr>info := Some fi\<rparr>) off whence (fi_size fi + off)))
         | Some fi \<Rightarrow> (h, seekTo f off whence (fi_size fi + off)))
      else (h, f, Inl (InvalidSeekError off whence)))"

text \<open>A slice expression \<open>s[i:j]\<close>: \<open>None\<close> is the panic of an index out of range.
  \<open>wrap64\<close> is the wrap-around of an \<open>int\<close> sum. The count \<open>n\<close> of \<open>Readdir\<close> is
  an \<open>int\<close> of 64 bits.\<close>

definition goSlice :: "'a list \<Rightarrow> int \<Rightarrow> int \<Rightarrow> 'a list option" where
  "goSlice s i j =
     (if 0 \<le> i \<and> i \<le> j \<and> j \<le> int (length s) then Some (take (nat (j - i)) (drop (nat i) s))
      else None)"

definition wrap64 :: "int \<Rightarrow> int" where
  "wrap64 k = signed_take_bit 63 k"

definition Readdir :: "env \<Rightarrow> File \<Rightarrow> 64 word \<Rightarrow> request list
    \<Rightarrow> request list \<times> File \<times> (error + fileInfo list)" where
  "Readdir e f n h =
     (if closed f then (h, f, Inl (FileClosedError (path f)))
      else case info f of
        None \<Rightarrow> (h, f, Inl Panic)
      | Some fi \<Rightarrow>
          if \<not> fi_isDir fi then (h, f, Inl (PathError ''readdir'' (path f) ErrInvalid))
          else
            case (if dirInfos f = None
                  then (case readDir e (client (fs f)) (path f) h of
                          (h', Inl err) \<Rightarrow> (h', f, Some err)
                        | (h', Inr infos) \<Rightarrow> (h', f\<lparr>dirInfos := infos, dirIndex := 0\<rparr>, None))
                  else (h, f, None)) of
              (h', f, Some err) \<Rightarrow> (h', f, Inl err)
            | (h', f, None) \<Rightarrow>
                let s = (case dirInfos f of None \<Rightarrow> [] | Some xs \<Rightarrow> xs);
                    len = int (length s)
                in if sint n \<le> 0
                   then (case goSlice s (dirIndex f) len of
                           None \<Rightarrow> (h', f, Inl Panic)
                         | Some result \<Rightarrow>
                             (h', f\<lparr>dirIndex := len\<rparr>,
                              if result = [] then Inl EOF else Inr result))
                   else if dirIndex f \<ge> len then (h', f, Inl EOF)
                   else let end0 = wrap64 (dirIndex f + sint n);
                            end1 = (if end0 > len then len else end0)
                        in case goSlice s (dirIndex f) end1 of
                             None \<Rightarrow> (h', f, Inl Panic)
                           | Some result \<Rightarrow> (h', f\<lparr>dirIndex := end1\<rparr>, Inr result))"

section \<open>Requests and remote content\<close>

text \<open>The requests that \<open>propfind\<close>, \<open>put\<close> and \<open>proppatch\<close> send.\<close>

definition propfindRequest :: "webdavClient \<Rightarrow> string \<Rightarrow> int \<Rightarrow> request" where
  "propfindRequest c pathStr depth =
     newRequest c ''PROPFIND'' pathStr buildPropfindBody
       [(''Content-Type'', ''application/xml''), (''Depth'', fmt_d depth)]"

definition putRequest :: "webdavClient \<Rightarrow> string \<Rightarrow> string \<Rightarrow> request" where
  "putRequest c pathStr data =
     newRequest c ''PUT'' pathStr data [(''Content-Type'', ''application/octet-stream'')]"

definition proppatchRequest :: "env \<Rightarrow> webdavClient \<Rightarrow> string \<Rightarrow> int \<Rightarrow> request" where
  "proppatchRequest e c pathStr modTime =
     newRequest c ''PROPPATCH'' pathStr (buildProppatchBody e modTime)
       [(''Content-Type'', ''application/xml'')]"

text \<open>The path that \<open>readDir\<close> lists: the path with a separator at its end.\<close>

definition dirPath :: "string \<Rightarrow> string" where
  "dirPath pathStr = (if \<not> HasSuffix pathStr ''/'' then pathStr @ ''/'' else pathStr)"

text \<open>The number of bytes of the request body that the transport read in a round
  trip.\<close>

definition bodyRead :: "env \<Rightarrow> request list \<Rightarrow> request \<Rightarrow> nat" where
  "bodyRead e h r = (case Do e h r of Failed _ n \<Rightarrow> n | Response _ _ _ n \<Rightarrow> n)"

text \<open>
  The content of a remote file after a history of requests, on a server that stores what
  it has read of the body of each whole-body PUT it accepts: the bytes read of the last
  PUT to that URL that was answered with 201 or 204. \<open>pre\<close> is the history before the
  requests still to be replayed.
\<close>

definition acceptedPut :: "env \<Rightarrow> request list \<Rightarrow> request \<Rightarrow> string \<Rightarrow> bool" where
  "acceptedPut e pre r u =
     (Method r = ''PUT'' \<and> url r = u \<and>
      (case Do e pre r of Response code _ _ _ \<Rightarrow> code = 201 \<or> code = 204 | Failed _ _ \<Rightarrow> False))"

fun storedAfter :: "env \<Rightarrow> request list \<Rightarrow> request list \<Rightarrow> string \<Rightarrow> string option
    \<Rightarrow> string option" where
  "storedAfter e pre [] u cur = cur"
| "storedAfter e pre (r # rs) u cur =
     storedAfter e (pre @ [r]) rs u
       (if acceptedPut e pre r u then Some (take (bodyRead e pre r) (body r)) else cur)"

definition storedContent :: "env \<Rightarrow> request list \<Rightarrow> string \<Rightarrow> string option" where
  "storedContent e h u = storedAfter e [] h u None"

section \<open>Example servers\<close>

definition demoClient :: webdavClient where
  "demoClient = \<lparr>basePath = ''/dav/'', username = [], password = [], bearerToken = []\<rparr>"

definition demoFS :: FileSystem where
  "demoFS = \<lparr>client = demoClient, root = ''/'', cwd = ''/'', tempDir = ''/tmp''\<rparr>"

definition entry :: "string \<Rightarrow> string \<Rightarrow> bool \<Rightarrow> response" where
  "entry href len coll =
     \<lparr>Href = href,
      Propstat = \<lparr>Prop = \<lparr>DisplayName = [], GetContentLength = len, GetLastModified = [],
                          ResourceType = \<lparr>Collection = coll\<rparr>, GetETag = [],
                          GetContentType = [], CreationDate = []\<rparr>,
                  Status = ''HTTP/1.1 200 OK''\<rparr>\<rparr>"

text \<open>
  A server with a file \<open>/dav/test.txt\<close> of 11 bytes and a directory \<open>/dav/dir\<close> with
  two files. It answers a PROPFIND of \<open>/dav/none\<close> with an empty multistatus, accepts
  every PUT, and from then on knows the file that was put. It reads the body of every
  request to its end.
\<close>

definition demoDo :: "request list \<Rightarrow> request \<Rightarrow> reply" where
  "demoDo h r =
     (if Method r = ''PROPFIND'' then
        (if url r = ''/dav/dir''
         then Response 207 [] (Some \<lparr>Responses = [entry ''/dav/dir/'' [] True,
                 entry ''/dav/dir/a.txt'' ''3'' False, entry ''/dav/dir/b.txt'' ''5'' False]\<rparr>)
                (length (body r))
         else if url r = ''/dav/test.txt''
         then Response 207 [] (Some \<lparr>Responses = [entry ''/dav/test.txt'' ''11'' False]\<rparr>)
                (length (body r))
         else if url r = ''/dav/none''
         then Response 207 [] (Some \<lparr>Responses = []\<rparr>) (length (body r))
         else if list_ex (\<lambda>q. Method q = ''PUT'' \<and> url q = url r) h
         then Response 207 [] (Some \<lparr>Responses = [entry (url r) ''0'' False]\<rparr>)
                (length (body r))
         else Response 404 ''Not Found'' None (length (body r)))
      else if Method r = ''PUT'' then Response 201 [] None (length (body r))
      else if Method r = ''PROPPATCH'' then Response 207 [] None (length (body r))
      else Response 405 ''Method Not Allowed'' None (length (body r)))"

definition demoEnv :: env where
  "demoEnv = \<lparr>Do = demoDo, time_Parse = (\<lambda>layout s. None), time_Now = (\<lambda>h. int (length h)),
               time_Format = (\<lambda>layout t. [])\<rparr>"

text \<open>A server that cannot be reached.\<close>

definition downEnv :: env where
  "downEnv = \<lparr>Do = (\<lambda>h r. Failed ''connection refused'' 0), time_Parse = (\<lambda>layout s. None),
               time_Now = (\<lambda>h. 0), time_Format = (\<lambda>layout t. [])\<rparr>"

text \<open>
  A server with a directory \<open>/dav/empty\<close> that has no child when it is listed for the
  first time and the child \<open>new.txt\<close> at every later listing (another client has
  created it in between).
\<close>

definition growingDo :: "request list \<Rightarrow> request \<Rightarrow> reply" where
  "growingDo h r =
     (if Method r = ''PROPFIND'' \<and> url r = ''/dav/empty'' then
        (if list_ex (\<lambda>q. Method q = ''PROPFIND'' \<and> url q = ''/dav/empty''
                          \<and> (''Depth'', ''1'') \<in> set (header q)) h
         then Response 207 [] (Some \<lparr>Responses = [entry ''/dav/empty/'' [] True,
                 entry ''/dav/empty/new.txt'' ''4'' False]\<rparr>) (length (body r))
         else Response 207 [] (Some \<lparr>Responses = [entry ''/dav/empty/'' [] True]\<rparr>)
                (length (body r)))
      else Response 404 ''Not Found'' None (length (body r)))"

definition growingEnv :: env where
  "growingEnv = \<lparr>Do = growingDo, time_Parse = (\<lambda>layout s. None), time_Now = (\<lambda>h. 0),
                  time_Format = (\<lambda>layout t. [])\<rparr>"

text \<open>
  Handles on the first server: one on the file \<open>/test.txt\<close>, opened for reading and
  writing, and the steps of writing \<open>hello\<close>, syncing, writing \<open>world\<close> and
  closing.
\<close>

definition testInfo :: fileInfo where
  "testInfo = \<lparr>fi_name = ''test.txt'', fi_size = 11, fi_mode = 0x1A4, fi_modTime = 0,
               fi_isDir = False\<rparr>"

definition testFile :: File where
  "testFile = newFile demoFS ''/test.txt'' O_RDWR testInfo"

definition afterWrite1 :: File where
  "afterWrite1 = fst (Write testFile ''hello'')"

definition afterSync :: "request list \<times> File \<times> error option" where
  "afterSync = Sync demoEnv afterWrite1 []"

definition afterWrite2 :: File where
  "afterWrite2 = fst (Write (fst (snd afterSync)) ''world'')"

definition afterClose :: "request list \<times> File \<times> error option" where
  "afterClose = Close demoEnv afterWrite2 (fst afterSync)"

text \<open>
  A server that answers every request with 201 as soon as it has read 65536 bytes of the
  body, and the same steps on it with one MiB of data: writing the data, syncing, writing
  \<open>world\<close> and closing.
\<close>

definition hastyEnv :: env where
  "hastyEnv = \<lparr>Do = (\<lambda>h r. Response 201 [] None 65536), time_Parse = (\<lambda>layout s. None),
                time_Now = (\<lambda>h. 0), time_Format = (\<lambda>layout t. [])\<rparr>"

definition bigData :: string where
  "bigData = replicate 1048576 (CHR ''a'')"

definition bigWrite :: File where
  "bigWrite = fst (Write testFile bigData)"

definition hastySync :: "request list \<times> File \<times> error option" where
  "hastySync = Sync hastyEnv bigWrite []"

definition hastyWrite2 :: File where
  "hastyWrite2 = fst (Write (fst (snd hastySync)) ''world'')"

definition hastyClose :: "request list \<times> File \<times> error option" where
  "hastyClose = Close hastyEnv hastyWrite2 (fst hastySync)"

text \<open>
  A handle on the directory \<open>/empty\<close> of the last server, as \<open>OpenFile\<close> returns
  it, and two calls of \<open>Readdir\<close> with the count 1 on it.
\<close>

definition emptyDir :: File where
  "emptyDir = newFile demoFS ''/empty'' O_RDONLY
     \<lparr>fi_name = ''empty'', fi_size = 0, fi_mode = 0x1ED OR ModeDir, fi_modTime = 0,
      fi_isDir = True\<rparr>"

definition firstReaddir :: "request list \<times> File \<times> (error + fileInfo list)" where
  "firstReaddir =
     Readdir growingEnv emptyDir 1 [propfindRequest demoClient ''/empty'' 0]"

definition secondReaddir :: "request list \<times> File \<times> (error + fileInfo list)" where
  "secondReaddir = Readdir growingEnv (fst (snd firstReaddir)) 1 (fst firstReaddir)"

section \<open>Properties of the error mapper and of validation\<close>

text \<open>
  C2. The error mapper is a function of the status code and the path alone, defined on
  every integer: 404 gives not-exist, 403 permission-denied, 409 not-exist, 412
  already-exists, 423 permission-denied, 507 the storage-exhausted error, and every other
  code the generic error whose text carries the code in decimal.
\<close>

theorem httpStatusToOSError_table:
  "httpStatusToOSError 404 p = PathError ''stat'' p ErrNotExist
   \<and> httpStatusToOSError 403 p = PathError ''access'' p ErrPermission
   \<and> httpStatusToOSError 409 p = PathError ''create'' p ErrNotExist
   \<and> httpStatusToOSError 412 p = PathError ''create'' p ErrExist
   \<and> httpStatusToOSError 423 p = PathError ''access'' p ErrPermission
   \<and> httpStatusToOSError 507 p = PathError ''write'' p (Errorf ''insufficient storage'')
   \<and> (code \<notin> {404, 403, 409, 412, 423, 507} \<longrightarrow>
        httpStatusToOSError code p
          = PathError ''webdav'' p (Errorf (''http status '' @ fmt_d code)))"
  by (simp add: httpStatusToOSError_def)

theorem httpStatusToOSError_table_witness:
  "(500::int) \<notin> {404, 403, 409, 412, 423, 507}
   \<and> httpStatusToOSError 500 ''/a'' = PathError ''webdav'' ''/a'' (Errorf ''http status 500'')
   \<and> IsNotExist (httpStatusToOSError 404 ''/a'')
   \<and> IsPermission (httpStatusToOSError 403 ''/a'')
   \<and> IsNotExist (httpStatusToOSError 409 ''/a'')
   \<and> IsExist (httpStatusToOSError 412 ''/a'')
   \<and> IsPermission (httpStatusToOSError 423 ''/a'')"
  using httpStatusToOSError_table [of "''/a''" 500]
  by (simp add: fmt_d_def digit_char_def)

text \<open>
  C9. Validation fails with a configuration error whenever the bearer token is set
  together with a username or a password, and every configuration with a non-empty URL
  in which they are not both set passes.
\<close>

theorem validate_exclusive:
  "(BearerToken c \<noteq> [] \<and> (Username c \<noteq> [] \<or> Password c \<noteq> [])
      \<longrightarrow> (\<exists>e. validate c = Some e \<and> isConfigError e))
   \<and> (URL c \<noteq> [] \<and> \<not> (BearerToken c \<noteq> [] \<and> (Username c \<noteq> [] \<or> Password c \<noteq> []))
      \<longrightarrow> validate c = None)"
  by (simp add: validate_def isConfigError_def)

theorem validate_exclusive_witness:
  "validate \<lparr>URL = ''http://h/dav'', Username = ''u'', Password = [], BearerToken = ''t'',
             HTTPClient = False, Timeout = 0, TempDir = []\<rparr>
     = Some (ConfigError ''Authentication''
               ''BearerToken and Username/Password are mutually exclusive'')
   \<and> validate \<lparr>URL = ''http://h/dav'', Username = ''u'', Password = ''p'', BearerToken = [],
               HTTPClient = False, Timeout = 0, TempDir = []\<rparr> = None"
  using validate_exclusive [of "\<lparr>URL = ''http://h/dav'', Username = ''u'', Password = [],
             BearerToken = ''t'', HTTPClient = False, Timeout = 0, TempDir = []\<rparr>"]
        validate_exclusive [of "\<lparr>URL = ''http://h/dav'', Username = ''u'', Password = ''p'',
             BearerToken = [], HTTPClient = False, Timeout = 0, TempDir = []\<rparr>"]
  by (simp add: validate_def isConfigError_def)

section \<open>Properties of the path functions and of URL construction\<close>

lemma splitSlash_nonempty: "splitSlash s \<noteq> []"
  by (induction s) auto

lemma splitSlash_append:
  "splitSlash (a @ CHR ''/'' # b) = splitSlash a @ splitSlash b"
proof (induction a)
  case Nil
  show ?case by simp
next
  case (Cons c a)
  have ne: "splitSlash a \<noteq> []" by (rule splitSlash_nonempty)
  show ?case
  proof (cases "c = CHR ''/''")
    case True
    with Cons show ?thesis by simp
  next
    case False
    with Cons ne show ?thesis by (cases "splitSlash a") auto
  qed
qed

lemma splitSlash_noSlash: "e \<in> set (splitSlash s) \<Longrightarrow> CHR ''/'' \<notin> set e"
proof (induction s arbitrary: e)
  case Nil
  then show ?case by simp
next
  case (Cons c s)
  have ne: "splitSlash s \<noteq> []" by (rule splitSlash_nonempty)
  then obtain x xs where sp: "splitSlash s = x # xs" by (cases "splitSlash s") auto
  show ?case
  proof (cases "c = CHR ''/''")
    case True
    with Cons show ?thesis by auto
  next
    case False
    with Cons.prems sp have "e = c # x \<or> e \<in> set xs" by auto
    then show ?thesis
    proof
      assume "e = c # x"
      moreover have "CHR ''/'' \<notin> set x" using Cons.IH [of x] sp by simp
      ultimately show ?thesis using False by auto
    next
      assume "e \<in> set xs"
      then show ?thesis using Cons.IH [of e] sp by simp
    qed
  qed
qed

lemma splitSlash_noSlash_id: "CHR ''/'' \<notin> set e \<Longrightarrow> splitSlash e = [e]"
  by (induction e) auto

lemma splitSlash_joinSlash:
  "es \<noteq> [] \<Longrightarrow> \<forall>e\<in>set es. CHR ''/'' \<notin> set e \<Longrightarrow> splitSlash (joinSlash es) = es"
proof (induction es rule: joinSlash.induct)
  case 1
  then show ?case by simp
next
  case (2 e)
  then show ?case by (simp add: splitSlash_noSlash_id)
next
  case (3 e v va)
  then show ?case by (simp add: splitSlash_append splitSlash_noSlash_id)
qed

lemma joinSlash_append:
  "joinSlash (a @ b) =
     (if a = [] then joinSlash b else if b = [] then joinSlash a
      else joinSlash a @ CHR ''/'' # joinSlash b)"
proof (induction a rule: joinSlash.induct)
  case 1
  show ?case by simp
next
  case (2 e)
  show ?case by (cases b) auto
next
  case (3 e v va)
  then show ?case by auto
qed

lemma cleanStep_real: "realElem e \<Longrightarrow> cleanStep r st e = (fst st, snd st @ [e])"
  by (cases st) (simp add: realElem_def)

lemma foldl_cleanStep_real:
  "\<forall>e\<in>set es. realElem e \<Longrightarrow> foldl (cleanStep r) st es = (fst st, snd st @ es)"
  by (induction es arbitrary: st) (simp_all add: cleanStep_real)

lemma cleanStep_inv:
  assumes "\<forall>x\<in>set (snd st). realElem x" and "CHR ''/'' \<notin> set e"
  shows "\<forall>x\<in>set (snd (cleanStep r st e)). realElem x"
  using assms by (cases st) (auto simp: realElem_def dest: in_set_butlastD)

lemma cleanStep_empty: "cleanStep r st [] = st"
  by (cases st) simp

lemma cleanStep_rooted: "fst (cleanStep True st e) = fst st"
  by (cases st) simp

lemma foldl_cleanStep_inv:
  "\<forall>x\<in>set (snd st). realElem x \<Longrightarrow> \<forall>e\<in>set es. CHR ''/'' \<notin> set e \<Longrightarrow>
   \<forall>x\<in>set (snd (foldl (cleanStep r) st es)). realElem x"
proof (induction es arbitrary: st)
  case Nil
  then show ?case by simp
next
  case (Cons e es)
  have "\<forall>x\<in>set (snd (cleanStep r st e)). realElem x"
    using Cons.prems by (intro cleanStep_inv) auto
  then show ?case using Cons.IH [of "cleanStep r st e"] Cons.prems by simp
qed

lemma foldl_cleanStep_rooted: "fst (foldl (cleanStep True) st es) = fst st"
  by (induction es arbitrary: st) (simp_all add: cleanStep_rooted)

lemma cleanState_real: "\<forall>x\<in>set (snd (cleanState p)). realElem x"
  unfolding cleanState_def
  by (rule foldl_cleanStep_inv) (auto dest: splitSlash_noSlash)

lemma Clean_rooted:
  "Clean (CHR ''/'' # t) = CHR ''/'' # joinSlash (snd (cleanState (CHR ''/'' # t)))"
  by (simp add: Clean_def cleanOut_def Let_def)

lemma Clean_eq:
  "p \<noteq> [] \<Longrightarrow> Clean p = (let out = cleanOut (hd p = CHR ''/'') (cleanState p)
                          in if out = [] then ''.'' else out)"
  by (simp add: Clean_def Let_def)

lemma cleanState_join:
  assumes "base \<noteq> []" and "\<forall>e\<in>set es. realElem e"
  shows "cleanState (base @ CHR ''/'' # CHR ''/'' # joinSlash es)
           = (fst (cleanState base), snd (cleanState base) @ es)"
proof -
  let ?r = "hd base = CHR ''/''"
  have hd: "hd (base @ CHR ''/'' # CHR ''/'' # joinSlash es) = hd base"
    using assms(1) by simp
  have sp: "splitSlash (base @ CHR ''/'' # CHR ''/'' # joinSlash es)
              = splitSlash base @ [] # splitSlash (joinSlash es)"
    by (simp add: splitSlash_append)
  have tail: "foldl (cleanStep ?r) st (splitSlash (joinSlash es)) = (fst st, snd st @ es)" for st
  proof (cases "es = []")
    case True
    then show ?thesis by (cases st) simp
  next
    case False
    have "splitSlash (joinSlash es) = es"
      using False assms(2) by (intro splitSlash_joinSlash) (auto simp: realElem_def)
    then show ?thesis using assms(2) by (simp add: foldl_cleanStep_real)
  qed
  show ?thesis
    unfolding cleanState_def hd sp
    by (simp add: tail cleanStep_empty)
qed

lemma joinSlash_real_hd:
  "\<forall>e\<in>set es. realElem e \<Longrightarrow> takeWhile (\<lambda>c. c = CHR ''/'') (joinSlash es) = []"
proof (induction es rule: joinSlash.induct)
  case 1
  show ?case by simp
next
  case (2 e)
  then show ?case by (cases e) (auto simp: realElem_def)
next
  case (3 e v va)
  then show ?case by (cases e) (auto simp: realElem_def)
qed

lemma Clean_rooted_single:
  "takeWhile (\<lambda>c. c = CHR ''/'') (Clean (CHR ''/'' # t)) = ''/''"
  by (simp add: Clean_rooted joinSlash_real_hd cleanState_real)

lemma buildURL_state:
  assumes bp: "basePath c = base" and "base \<noteq> []"
  shows "buildURL c p =
    (let cp = cleanState (CHR ''/'' # TrimPrefix p ''/'');
         out = cleanOut (hd base = CHR ''/'')
                 (fst (cleanState base), snd (cleanState base) @ snd cp)
     in if out = [] then ''.'' else out)"
proof -
  let ?t = "CHR ''/'' # TrimPrefix p ''/''"
  let ?es = "snd (cleanState ?t)"
  have real: "\<forall>e\<in>set ?es. realElem e" by (rule cleanState_real)
  have jb: "joinBuf [] [base, Clean ?t] = base @ CHR ''/'' # CHR ''/'' # joinSlash ?es"
    using assms by (simp add: Clean_rooted)
  have ne: "concat [base, Clean ?t] \<noteq> []" using assms by simp
  have hd: "hd (base @ CHR ''/'' # CHR ''/'' # joinSlash ?es) = hd base"
    using assms by simp
  show ?thesis
    unfolding buildURL_def Join_def Let_def bp
    using ne
    by (simp only: jb if_False Clean_eq [of "base @ CHR ''/'' # CHR ''/'' # joinSlash ?es", simplified]
          cleanState_join [OF assms(2) real] hd Let_def)
qed

lemma buildURL_rooted:
  assumes bp: "basePath c = base" and "base \<noteq> []" and "hd base = CHR ''/''"
  shows "prefix (Clean base) (buildURL c p)"
proof -
  let ?cp = "snd (cleanState (CHR ''/'' # TrimPrefix p ''/''))"
  let ?b = "snd (cleanState base)"
  have cb: "Clean base = CHR ''/'' # joinSlash ?b"
    using assms by (simp add: Clean_eq cleanOut_def Let_def)
  have bu: "buildURL c p = CHR ''/'' # joinSlash (?b @ ?cp)"
    using assms by (simp add: buildURL_state [OF bp] cleanOut_def Let_def)
  show ?thesis
    unfolding cb bu by (simp add: joinSlash_append)
qed


lemma joinSlash_nonempty: "xs \<noteq> [] \<Longrightarrow> hd xs \<noteq> [] \<Longrightarrow> joinSlash xs \<noteq> []"
  by (induction xs rule: joinSlash.induct) auto

lemma elements_dot: "elements ''.'' = []"
  by (simp add: elements_def)

lemma elements_joinSlash:
  assumes "\<forall>e\<in>set xs. e \<noteq> [] \<and> e \<noteq> ''.'' \<and> CHR ''/'' \<notin> set e"
  shows "elements (joinSlash xs) = xs"
proof (cases "xs = []")
  case True
  then show ?thesis by (simp add: elements_def)
next
  case False
  have "splitSlash (joinSlash xs) = xs"
    using False assms by (intro splitSlash_joinSlash) auto
  moreover have "filter (\<lambda>e. e \<noteq> [] \<and> e \<noteq> ''.'') xs = xs"
    using assms by (intro filter_True) auto
  ultimately show ?thesis by (simp add: elements_def)
qed

lemma elements_slash: "elements (CHR ''/'' # s) = elements s"
  by (simp add: elements_def)

lemma realElem_plain: "realElem e \<Longrightarrow> e \<noteq> [] \<and> e \<noteq> ''.'' \<and> CHR ''/'' \<notin> set e"
  unfolding realElem_def by (elim conjE) (intro conjI)

lemma elements_out:
  assumes "\<forall>e\<in>set (snd st). realElem e"
  shows "elements (let out = cleanOut r st in if out = [] then ''.'' else out) = stateElems r st"
proof (cases r)
  case True
  have "\<forall>e\<in>set (snd st). e \<noteq> [] \<and> e \<noteq> ''.'' \<and> CHR ''/'' \<notin> set e"
    using assms realElem_plain by blast
  then have "elements (joinSlash (snd st)) = snd st"
    by (rule elements_joinSlash)
  with True show ?thesis by (simp add: cleanOut_def stateElems_def elements_slash)
next
  case False
  define xs where "xs = replicate (fst st) ''..'' @ snd st"
  have ok: "\<forall>e\<in>set xs. e \<noteq> [] \<and> e \<noteq> ''.'' \<and> CHR ''/'' \<notin> set e"
  proof
    fix e assume "e \<in> set xs"
    then have "e = ''..'' \<or> e \<in> set (snd st)" unfolding xs_def by auto
    then show "e \<noteq> [] \<and> e \<noteq> ''.'' \<and> CHR ''/'' \<notin> set e"
    proof
      assume "e = ''..''" then show ?thesis by simp
    next
      assume "e \<in> set (snd st)" then show ?thesis using assms realElem_plain by blast
    qed
  qed
  have el: "elements (joinSlash xs) = xs" using ok by (rule elements_joinSlash)
  have out: "cleanOut r st = joinSlash xs" and se: "stateElems r st = xs"
    using False by (simp_all add: cleanOut_def stateElems_def xs_def)
  show ?thesis
  proof (cases "xs = []")
    case True
    then show ?thesis unfolding out se by (simp add: elements_dot)
  next
    case ne: False
    have "hd xs \<in> set xs" using ne by (rule hd_in_set)
    then have "hd xs \<noteq> []" using ok by blast
    then have "joinSlash xs \<noteq> []" using ne by (intro joinSlash_nonempty)
    then show ?thesis unfolding out se by (simp add: el)
  qed
qed

lemma elements_Clean:
  "p \<noteq> [] \<Longrightarrow> elements (Clean p) = stateElems (hd p = CHR ''/'') (cleanState p)"
  using elements_out [OF cleanState_real, of "hd p = CHR ''/''" p]
  by (simp add: Clean_eq)

lemma stateElems_append:
  "stateElems r (d, xs @ ys) = stateElems r (d, xs) @ ys"
  by (simp add: stateElems_def)

lemma buildURL_elements_nonempty:
  assumes bp: "basePath c = base" and "base \<noteq> []"
  shows "elements (buildURL c p)
           = elements (Clean base) @ elements (Clean (CHR ''/'' # TrimPrefix p ''/''))"
proof -
  let ?t = "CHR ''/'' # TrimPrefix p ''/''"
  have real: "\<forall>e\<in>set (snd (cleanState base) @ snd (cleanState ?t)). realElem e"
    using cleanState_real [of base] cleanState_real [of ?t] by auto
  have "elements (buildURL c p)
          = stateElems (hd base = CHR ''/'')
              (fst (cleanState base), snd (cleanState base) @ snd (cleanState ?t))"
    unfolding buildURL_state [OF assms] Let_def
    using elements_out [of "(fst (cleanState base), snd (cleanState base) @ snd (cleanState ?t))"
                           "hd base = CHR ''/''"] real
    by (simp add: Let_def)
  also have "\<dots> = stateElems (hd base = CHR ''/'') (cleanState base) @ snd (cleanState ?t)"
    by (cases "cleanState base") (simp add: stateElems_def)
  also have "\<dots> = elements (Clean base) @ elements (Clean ?t)"
    using assms by (simp add: elements_Clean stateElems_def)
  finally show ?thesis .
qed

lemma cleanState_cleaned:
  assumes "\<forall>e\<in>set es. realElem e"
  shows "cleanState (CHR ''/'' # joinSlash es) = (0, es)"
proof (cases "es = []")
  case True
  then show ?thesis by (simp add: cleanState_def)
next
  case False
  have "splitSlash (joinSlash es) = es"
    using False assms by (intro splitSlash_joinSlash) (auto simp: realElem_def)
  then show ?thesis using assms by (simp add: cleanState_def foldl_cleanStep_real)
qed

lemma Clean_idem_rooted: "Clean (Clean (CHR ''/'' # t)) = Clean (CHR ''/'' # t)"
  by (simp add: Clean_rooted [of t]
        Clean_rooted [of "joinSlash (snd (cleanState (CHR ''/'' # t)))"]
        cleanState_cleaned [OF cleanState_real])

lemma buildURL_empty_base:
  "basePath c = [] \<Longrightarrow> buildURL c p = Clean (CHR ''/'' # TrimPrefix p ''/'')"
proof -
  have "Clean (CHR ''/'' # TrimPrefix p ''/'') \<noteq> []" by (simp add: Clean_rooted)
  moreover assume "basePath c = []"
  ultimately show ?thesis by (simp add: buildURL_def Join_def Clean_idem_rooted)
qed

lemma buildURL_elements:
  "elements (buildURL c p)
     = elements (Clean (basePath c)) @ elements (Clean (CHR ''/'' # TrimPrefix p ''/''))"
proof (cases "basePath c = []")
  case True
  then show ?thesis by (simp add: buildURL_empty_base Clean_def elements_dot)
next
  case False
  then show ?thesis by (intro buildURL_elements_nonempty) simp_all
qed

lemma dotdot_elements: "''..'' \<in> set (splitSlash x) \<longleftrightarrow> ''..'' \<in> set (elements x)"
  by (simp add: elements_def)

lemma elements_Clean_rooted:
  "elements (Clean (CHR ''/'' # t)) = snd (cleanState (CHR ''/'' # t))"
  using elements_Clean [of "CHR ''/'' # t"] by (simp add: stateElems_def)

lemma Clean_rooted_no_dotdot: "''..'' \<notin> set (splitSlash (Clean (CHR ''/'' # t)))"
proof -
  have "\<forall>x\<in>set (snd (cleanState (CHR ''/'' # t))). realElem x" by (rule cleanState_real)
  then have "''..'' \<notin> set (snd (cleanState (CHR ''/'' # t)))"
    unfolding realElem_def by blast
  then show ?thesis by (simp only: dotdot_elements elements_Clean_rooted not_False_eq_True)
qed

lemma buildURL_rooted_exact:
  assumes bp: "basePath c = base" and ne: "base \<noteq> []" and ro: "hd base = CHR ''/''"
  shows "buildURL c p =
           (if elements (Clean (CHR ''/'' # TrimPrefix p ''/'')) = [] then Clean base
            else if elements (Clean base) = [] then Clean (CHR ''/'' # TrimPrefix p ''/'')
            else Clean base @ Clean (CHR ''/'' # TrimPrefix p ''/''))"
    and "''..'' \<notin> set (splitSlash (buildURL c p))"
proof -
  let ?t = "CHR ''/'' # TrimPrefix p ''/''"
  let ?es = "snd (cleanState ?t)" and ?b = "snd (cleanState base)"
  have cb: "Clean base = CHR ''/'' # joinSlash ?b"
    using ne ro by (simp add: Clean_eq cleanOut_def Let_def)
  have bu: "buildURL c p = CHR ''/'' # joinSlash (?b @ ?es)"
    using ne ro by (simp add: buildURL_state [OF bp] cleanOut_def Let_def)
  have cp: "Clean ?t = CHR ''/'' # joinSlash ?es" by (rule Clean_rooted)
  have ecp: "elements (Clean ?t) = ?es" by (rule elements_Clean_rooted)
  have ecb: "elements (Clean base) = ?b"
    using elements_Clean [OF ne] ro by (simp add: stateElems_def)
  show "buildURL c p =
           (if elements (Clean ?t) = [] then Clean base
            else if elements (Clean base) = [] then Clean ?t
            else Clean base @ Clean ?t)"
    unfolding ecp ecb unfolding cb bu cp by (simp add: joinSlash_append)
  have "\<forall>x\<in>set (?b @ ?es). realElem x"
    using cleanState_real [of base] cleanState_real [of ?t] by auto
  then have nd: "''..'' \<notin> set (?b @ ?es)" unfolding realElem_def by blast
  have "elements (buildURL c p) = ?b @ ?es"
    using buildURL_elements [of c p] by (simp only: bp ecp ecb)
  with nd show "''..'' \<notin> set (splitSlash (buildURL c p))"
    by (simp only: dotdot_elements not_False_eq_True)
qed

text \<open>
  C3 (as amended). For every path, \<open>buildURL\<close> cleans the path so that it begins with
  exactly one separator and has no \<open>..\<close> element left, and joins it onto the base path.
  The result is made of the elements of the cleaned base path followed by the elements of
  the cleaned path. When the base path is rooted, the result is the cleaned base path (the
  base path without its trailing separator and with \<open>.\<close> and \<open>..\<close> collapsed)
  followed by the cleaned path: the cleaned base path is a prefix of it and no \<open>..\<close>
  element is left in it that could lead out of the base.
\<close>

theorem buildURL_within_base:
  "takeWhile (\<lambda>x. x = CHR ''/'') (Clean (CHR ''/'' # TrimPrefix p ''/'')) = ''/''
   \<and> ''..'' \<notin> set (splitSlash (Clean (CHR ''/'' # TrimPrefix p ''/'')))
   \<and> buildURL c p = Join [basePath c, Clean (CHR ''/'' # TrimPrefix p ''/'')]
   \<and> elements (buildURL c p)
       = elements (Clean (basePath c)) @ elements (Clean (CHR ''/'' # TrimPrefix p ''/''))
   \<and> (IsAbs (basePath c) \<longrightarrow>
         prefix (Clean (basePath c)) (buildURL c p)
         \<and> ''..'' \<notin> set (splitSlash (buildURL c p))
         \<and> buildURL c p =
             (if elements (Clean (CHR ''/'' # TrimPrefix p ''/'')) = [] then Clean (basePath c)
              else if elements (Clean (basePath c)) = []
              then Clean (CHR ''/'' # TrimPrefix p ''/'')
              else Clean (basePath c) @ Clean (CHR ''/'' # TrimPrefix p ''/'')))"
proof -
  have a: "takeWhile (\<lambda>x. x = CHR ''/'') (Clean (CHR ''/'' # TrimPrefix p ''/'')) = ''/''"
    by (rule Clean_rooted_single)
  have b: "''..'' \<notin> set (splitSlash (Clean (CHR ''/'' # TrimPrefix p ''/'')))"
    by (rule Clean_rooted_no_dotdot)
  have c: "buildURL c p = Join [basePath c, Clean (CHR ''/'' # TrimPrefix p ''/'')]"
    by (simp add: buildURL_def)
  have d: "elements (buildURL c p)
       = elements (Clean (basePath c)) @ elements (Clean (CHR ''/'' # TrimPrefix p ''/''))"
    by (rule buildURL_elements)
  have e: "IsAbs (basePath c) \<longrightarrow>
         prefix (Clean (basePath c)) (buildURL c p)
         \<and> ''..'' \<notin> set (splitSlash (buildURL c p))
         \<and> buildURL c p =
             (if elements (Clean (CHR ''/'' # TrimPrefix p ''/'')) = [] then Clean (basePath c)
              else if elements (Clean (basePath c)) = []
              then Clean (CHR ''/'' # TrimPrefix p ''/'')
              else Clean (basePath c) @ Clean (CHR ''/'' # TrimPrefix p ''/''))"
  proof
    assume "IsAbs (basePath c)"
    then have ne: "basePath c \<noteq> []" and ro: "hd (basePath c) = CHR ''/''"
      by (simp_all add: IsAbs_def)
    from buildURL_rooted [OF refl ne ro] buildURL_rooted_exact(2) [OF refl ne ro]
      buildURL_rooted_exact(1) [OF refl ne ro]
    show "prefix (Clean (basePath c)) (buildURL c p)
         \<and> ''..'' \<notin> set (splitSlash (buildURL c p))
         \<and> buildURL c p =
             (if elements (Clean (CHR ''/'' # TrimPrefix p ''/'')) = [] then Clean (basePath c)
              else if elements (Clean (basePath c)) = []
              then Clean (CHR ''/'' # TrimPrefix p ''/'')
              else Clean (basePath c) @ Clean (CHR ''/'' # TrimPrefix p ''/''))"
      by (intro conjI)
  qed
  show ?thesis by (rule conjI [OF a conjI [OF b conjI [OF c conjI [OF d e]]]])
qed

theorem buildURL_within_base_witness:
  "IsAbs (basePath demoClient)
   \<and> prefix (Clean (basePath demoClient)) (buildURL demoClient ''../../etc/passwd'')
   \<and> ''..'' \<notin> set (splitSlash (buildURL demoClient ''../../etc/passwd''))
   \<and> Clean (basePath demoClient) = ''/dav''
   \<and> buildURL demoClient ''../../etc/passwd'' = ''/dav/etc/passwd''"
proof -
  have abs: "IsAbs (basePath demoClient)"
    by (simp add: demoClient_def IsAbs_def)
  note T = buildURL_within_base [of "''../../etc/passwd''" demoClient]
  note R = T [THEN conjunct2, THEN conjunct2, THEN conjunct2, THEN conjunct2, THEN mp, OF abs]
  note pre = R [THEN conjunct1]
  note nd = R [THEN conjunct2, THEN conjunct1]
  have cb: "Clean (basePath demoClient) = ''/dav''"
    by (simp add: demoClient_def Clean_def cleanState_def cleanOut_def)
  have bu: "buildURL demoClient ''../../etc/passwd'' = ''/dav/etc/passwd''"
    by (simp add: demoClient_def buildURL_def Join_def Clean_def cleanState_def cleanOut_def
          TrimPrefix_def HasPrefix_def)
  from abs pre nd cb bu show ?thesis by (intro conjI)
qed

text \<open>
  The base path of a client ends with a separator, and the result for the root path does
  not: the base path itself is not a prefix of it.
\<close>

theorem buildURL_base_prefix_counterexample:
  "\<not> prefix (basePath demoClient) (buildURL demoClient ''/'')"
  by (simp add: demoClient_def buildURL_def Join_def Clean_def cleanState_def cleanOut_def
        TrimPrefix_def HasPrefix_def)

section \<open>Properties of the protocol client and of the codec\<close>

lemma doRequest_history:
  "fst (doRequest e c m p b hs h) = h @ [newRequest c m p b hs]"
  by (simp add: doRequest_def Let_def split: reply.splits)

lemma propfind_Response:
  assumes "Do e h (propfindRequest c p d) = Response code txt xml rd"
  shows "propfind e c p d h =
     (h @ [propfindRequest c p d],
      if code = 404 then Inl (PathError ''stat'' p ErrNotExist)
      else if code \<noteq> 207 then Inl (WebDAVError code ''PROPFIND'' p txt)
      else case xml of None \<Rightarrow> Inl (PathError ''propfind'' p ErrXML) | Some ms \<Rightarrow> Inr ms)"
  using assms
  by (simp add: propfind_def doRequest_def propfindRequest_def Let_def split: option.splits)

lemma propfind_Failed:
  assumes "Do e h (propfindRequest c p d) = Failed msg n"
  shows "propfind e c p d h =
     (h @ [propfindRequest c p d], Inl (PathError ''PROPFIND'' p (ErrTransport msg)))"
  using assms
  by (simp add: propfind_def doRequest_def propfindRequest_def Let_def)

lemma propfind_history: "fst (propfind e c p d h) = h @ [propfindRequest c p d]"
  by (cases "Do e h (propfindRequest c p d)")
     (simp_all add: propfind_Response propfind_Failed)

lemma stat_history: "fst (stat e c p h) = h @ [propfindRequest c p 0]"
  using propfind_history [of e c p 0 h]
  by (auto simp: stat_def split: prod.splits sum.splits)

lemma parseFileInfo_total: "\<exists>fi. parseFileInfo e h r p = Inr fi"
  by (simp add: parseFileInfo_def Let_def)

text \<open>
  C4 (as amended). When a PROPFIND round trip succeeds with status 207 and the parsed
  multistatus holds no entry, \<open>propfind\<close> returns that multistatus without an error (the
  codec raises no not-found error, and \<open>parseFileInfo\<close> never fails); \<open>stat\<close> turns it
  into a not-exist error; \<open>readDir\<close> returns an empty listing and no error.
\<close>

theorem empty_multistatus:
  "(Do e h (propfindRequest c p 0) = Response 207 txt (Some ms) rd \<and> Responses ms = [] \<longrightarrow>
      propfind e c p 0 h = (h @ [propfindRequest c p 0], Inr ms)
      \<and> stat e c p h = (h @ [propfindRequest c p 0], Inl (PathError ''stat'' p ErrNotExist))
      \<and> IsNotExist (PathError ''stat'' p ErrNotExist))
   \<and> (Do e h (propfindRequest c (dirPath p) 1) = Response 207 txt (Some ms) rd \<and> Responses ms = [] \<longrightarrow>
      propfind e c (dirPath p) 1 h = (h @ [propfindRequest c (dirPath p) 1], Inr ms)
      \<and> readDir e c p h = (h @ [propfindRequest c (dirPath p) 1], Inr (Some [])))
   \<and> (\<exists>fi. parseFileInfo e h r p = Inr fi)"
  by (simp add: propfind_Response stat_def readDir_def dirPath_def Let_def parseFileInfo_total)

lemmas demo_eval = demoEnv_def demoDo_def demoClient_def demoFS_def propfindRequest_def
  putRequest_def proppatchRequest_def newRequest_def buildURL_def Join_def Clean_def
  cleanState_def cleanOut_def TrimPrefix_def HasPrefix_def HasSuffix_def dirPath_def
  fmt_d_def digit_char_def cleanPath_def IsAbs_def entry_def

theorem empty_multistatus_witness:
  "Do demoEnv [] (propfindRequest demoClient ''/none'' 0)
     = Response 207 [] (Some \<lparr>Responses = []\<rparr>) (length buildPropfindBody)
   \<and> snd (stat demoEnv demoClient ''/none'' []) = Inl (PathError ''stat'' ''/none'' ErrNotExist)
   \<and> snd (readDir demoEnv demoClient ''/none'' []) = Inr (Some [])"
  using empty_multistatus [of demoEnv "[]" demoClient "''/none''" "[]" "\<lparr>Responses = []\<rparr>"
          "length buildPropfindBody"]
  by (simp add: demo_eval)

text \<open>On an empty multistatus \<open>readDir\<close> returns the empty listing, not a not-exist
  error.\<close>

theorem readDir_empty_counterexample:
  "Do demoEnv [] (propfindRequest demoClient (dirPath ''/none'') 1)
     = Response 207 [] (Some \<lparr>Responses = []\<rparr>) (length buildPropfindBody)
   \<and> snd (readDir demoEnv demoClient ''/none'' []) = Inr (Some [])"
  by (simp add: demo_eval readDir_def propfind_def doRequest_def Let_def)


text \<open>
  C7 (as amended). \<open>Chtimes\<close> reports success for every response to the PROPPATCH
  request, whatever its status; when the round trip itself fails, the error of the
  transport is returned to the caller.
\<close>

theorem Chtimes_outcomes:
  "(Do e h (proppatchRequest e (client fsys) (cleanPath fsys name) mtime) = Response code txt xml rd
      \<longrightarrow> Chtimes e fsys name atime mtime h
            = (h @ [proppatchRequest e (client fsys) (cleanPath fsys name) mtime], None))
   \<and> (Do e h (proppatchRequest e (client fsys) (cleanPath fsys name) mtime) = Failed msg n
      \<longrightarrow> Chtimes e fsys name atime mtime h
            = (h @ [proppatchRequest e (client fsys) (cleanPath fsys name) mtime],
               Some (PathError ''PROPPATCH'' (cleanPath fsys name) (ErrTransport msg))))"
  by (simp add: Chtimes_def proppatch_def doRequest_def proppatchRequest_def Let_def)

theorem Chtimes_outcomes_witness:
  "Do demoEnv [] (proppatchRequest demoEnv demoClient ''/test.txt'' 7)
     = Response 207 [] None (length (buildProppatchBody demoEnv 7))
   \<and> snd (Chtimes demoEnv demoFS ''/test.txt'' 5 7 []) = None
   \<and> Do downEnv [] (proppatchRequest downEnv demoClient ''/test.txt'' 7)
       = Failed ''connection refused'' 0
   \<and> snd (Chtimes downEnv demoFS ''/test.txt'' 5 7 [])
       = Some (PathError ''PROPPATCH'' ''/test.txt'' (ErrTransport ''connection refused''))"
  using Chtimes_outcomes [of demoEnv "[]" demoFS "''/test.txt''" 7 207 "[]" None
                             "length (buildProppatchBody demoEnv 7)" 5 "[]" 0]
        Chtimes_outcomes [of downEnv "[]" demoFS "''/test.txt''" 7 207 "[]" None 0 5
                             "''connection refused''" 0]
  by (simp add: demo_eval downEnv_def)

text \<open>A failure of the transport is not swallowed.\<close>

theorem Chtimes_transport_counterexample:
  "snd (Chtimes downEnv demoFS ''/test.txt'' 5 7 [])
     = Some (PathError ''PROPPATCH'' ''/test.txt'' (ErrTransport ''connection refused''))"
  by (simp add: Chtimes_def proppatch_def doRequest_def Let_def demo_eval downEnv_def)

lemma Base_nonempty: "Base p \<noteq> []"
  by (simp add: Base_def Let_def)

lemma parseFileInfo_name:
  "parseFileInfo e h r p = Inr fi \<Longrightarrow>
   fi_name fi = (if Base (TrimPrefix (Href r) ''/'') = ''/'' then Base p
                 else Base (TrimPrefix (Href r) ''/''))"
  by (auto simp: parseFileInfo_def Let_def Base_nonempty)

text \<open>
  C8. The name comes from the base name of the href after one leading separator is
  trimmed, and the base name of the requested path replaces it when it is the separator.
  \<open>path.Base\<close> never returns the empty string (\<open>Base_nonempty\<close>): for the empty href
  it returns \<open>.\<close>, so the test for an empty name never holds, and an entry whose href
  is empty gets the name \<open>.\<close> and not the base name \<open>test.txt\<close> of the requested
  path.
\<close>

theorem parseFileInfo_empty_href:
  "parseFileInfo demoEnv [] (entry [] ''11'' False) ''/test.txt''
     = Inr \<lparr>fi_name = ''.'', fi_size = 11, fi_mode = 0x1A4, fi_modTime = 0, fi_isDir = False\<rparr>
   \<and> Base ''/test.txt'' = ''test.txt''"
  by (simp add: parseFileInfo_def Let_def entry_def Base_def TrimPrefix_def HasPrefix_def
        ParseInt_def isDigit_def demoEnv_def)

section \<open>Properties of opening a file\<close>

lemma put_Response:
  assumes "Do e h (putRequest c p d) = Response code txt xml rd"
  shows "put e c p d h =
     (h @ [putRequest c p d], drop rd d,
      if code \<noteq> 201 \<and> code \<noteq> 204 then Some (httpStatusToOSError code p) else None)"
  using assms by (simp add: put_def doRequest_def putRequest_def Let_def)

lemma put_Failed:
  assumes "Do e h (putRequest c p d) = Failed msg n"
  shows "put e c p d h =
     (h @ [putRequest c p d], drop n d, Some (PathError ''PUT'' p (ErrTransport msg)))"
  using assms by (simp add: put_def doRequest_def putRequest_def Let_def)

lemma put_history: "fst (put e c p d h) = h @ [putRequest c p d]"
  by (cases "Do e h (putRequest c p d)") (simp_all add: put_Response put_Failed)

lemma put_ok:
  assumes "snd (snd (put e c p d h)) = None"
  shows "put e c p d h
           = (h @ [putRequest c p d], drop (bodyRead e h (putRequest c p d)) d, None)
         \<and> acceptedPut e h (putRequest c p d) (buildURL c p)"
proof (cases "Do e h (putRequest c p d)")
  case (Failed msg n)
  with assms show ?thesis by (simp add: put_Failed)
next
  case (Response sc tx xm rd)
  with assms show ?thesis
    by (simp add: put_Response acceptedPut_def bodyRead_def putRequest_def newRequest_def
          split: if_splits)
qed

lemma OpenFile_absent_nocreate:
  assumes "snd (stat e (client fsys) (cleanPath fsys name) h) = Inl err" and "IsNotExist err"
    and "flg AND O_CREATE = 0"
  shows "OpenFile e fsys name flg perm h
     = (h @ [propfindRequest (client fsys) (cleanPath fsys name) 0],
        Inl (PathError ''open'' (cleanPath fsys name) ErrNotExist))"
  using assms stat_history [of e "client fsys" "cleanPath fsys name" h]
  by (cases "stat e (client fsys) (cleanPath fsys name) h") (simp add: OpenFile_def Let_def)

lemma OpenFile_absent_create:
  assumes "snd (stat e (client fsys) (cleanPath fsys name) h) = Inl err" and "IsNotExist err"
    and "flg AND O_CREATE \<noteq> 0"
  shows "OpenFile e fsys name flg perm h =
     (case put e (client fsys) (cleanPath fsys name) []
             (h @ [propfindRequest (client fsys) (cleanPath fsys name) 0]) of
        (h2, _, Some perr) \<Rightarrow> (h2, Inl perr)
      | (h2, _, None) \<Rightarrow>
          (case stat e (client fsys) (cleanPath fsys name) h2 of
             (h3, Inl e3) \<Rightarrow> (h3, Inl e3)
           | (h3, Inr fi) \<Rightarrow> (h3, Inr (newFile fsys (cleanPath fsys name) flg fi))))"
  using assms stat_history [of e "client fsys" "cleanPath fsys name" h]
  by (cases "stat e (client fsys) (cleanPath fsys name) h") (simp add: OpenFile_def Let_def)

lemma OpenFile_exists:
  assumes "snd (stat e (client fsys) (cleanPath fsys name) h) = Inr fi"
  shows "OpenFile e fsys name flg perm h =
     (if flg AND O_CREATE \<noteq> 0 \<and> flg AND O_EXCL \<noteq> 0
      then (h @ [propfindRequest (client fsys) (cleanPath fsys name) 0],
            Inl (PathError ''open'' (cleanPath fsys name) ErrExist))
      else if flg AND O_TRUNC \<noteq> 0 \<and> \<not> fi_isDir fi
      then (case put e (client fsys) (cleanPath fsys name) []
                   (h @ [propfindRequest (client fsys) (cleanPath fsys name) 0]) of
              (h2, _, Some perr) \<Rightarrow> (h2, Inl perr)
            | (h2, _, None) \<Rightarrow> (h2, Inr (newFile fsys (cleanPath fsys name) flg fi)))
      else (h @ [propfindRequest (client fsys) (cleanPath fsys name) 0],
            Inr (newFile fsys (cleanPath fsys name) flg fi)))"
  using assms stat_history [of e "client fsys" "cleanPath fsys name" h]
  by (cases "stat e (client fsys) (cleanPath fsys name) h") (simp add: OpenFile_def Let_def)

lemma OpenFile_prefix:
  "prefix (h @ [propfindRequest (client fsys) (cleanPath fsys name) 0])
     (fst (OpenFile e fsys name flg perm h))"
proof -
  let ?c = "client fsys" and ?p = "cleanPath fsys name"
  let ?h1 = "h @ [propfindRequest ?c ?p 0]"
  obtain r where st: "stat e ?c ?p h = (?h1, r)"
    using stat_history [of e ?c ?p h] by (cases "stat e ?c ?p h") simp
  obtain rest pr where pt: "put e ?c ?p [] ?h1 = (?h1 @ [putRequest ?c ?p []], rest, pr)"
    using put_history [of e ?c ?p "[]" ?h1] by (cases "put e ?c ?p [] ?h1") simp
  have st2: "fst (stat e ?c ?p (?h1 @ [putRequest ?c ?p []]))
      = ?h1 @ [putRequest ?c ?p [], propfindRequest ?c ?p 0]"
    by (simp add: stat_history)
  have pre2: "prefix ?h1 (fst (case stat e ?c ?p (?h1 @ [putRequest ?c ?p []]) of
                  (h3, Inl err) \<Rightarrow> (h3, Inl err)
                | (h3, Inr fi) \<Rightarrow> (h3, Inr (newFile fsys ?p flg fi))))"
    using st2 by (cases "stat e ?c ?p (?h1 @ [putRequest ?c ?p []])")
                 (auto split: sum.splits)
  show ?thesis
    unfolding OpenFile_def Let_def st
    using pre2 by (auto simp: pt split: sum.splits option.splits)
qed


lemma put_shape: "\<exists>rest pr. put e c p d h = (h @ [putRequest c p d], rest, pr)"
  using put_history [of e c p d h] by (cases "put e c p d h") simp

lemma stat_shape: "\<exists>r. stat e c p h = (h @ [propfindRequest c p 0], r)"
  using stat_history [of e c p h] by (cases "stat e c p h") simp

lemma OpenFile_create_steps:
  assumes st: "snd (stat e (client fsys) (cleanPath fsys name) h) = Inl err" and ne: "IsNotExist err"
    and cr: "flg AND O_CREATE \<noteq> 0"
  shows "prefix (h @ [propfindRequest (client fsys) (cleanPath fsys name) 0,
                      putRequest (client fsys) (cleanPath fsys name) []])
           (fst (OpenFile e fsys name flg perm h))"
    and "snd (snd (put e (client fsys) (cleanPath fsys name) []
              (h @ [propfindRequest (client fsys) (cleanPath fsys name) 0]))) = Some perr
         \<Longrightarrow> OpenFile e fsys name flg perm h
             = (h @ [propfindRequest (client fsys) (cleanPath fsys name) 0,
                     putRequest (client fsys) (cleanPath fsys name) []], Inl perr)"
    and "snd (snd (put e (client fsys) (cleanPath fsys name) []
              (h @ [propfindRequest (client fsys) (cleanPath fsys name) 0]))) = None
         \<Longrightarrow> fst (OpenFile e fsys name flg perm h)
             = h @ [propfindRequest (client fsys) (cleanPath fsys name) 0,
                    putRequest (client fsys) (cleanPath fsys name) [],
                    propfindRequest (client fsys) (cleanPath fsys name) 0]
           \<and> (\<forall>fi. snd (stat e (client fsys) (cleanPath fsys name)
                     (h @ [propfindRequest (client fsys) (cleanPath fsys name) 0,
                           putRequest (client fsys) (cleanPath fsys name) []])) = Inr fi
                  \<longrightarrow> snd (OpenFile e fsys name flg perm h)
                        = Inr (newFile fsys (cleanPath fsys name) flg fi))
           \<and> (\<forall>e3. snd (stat e (client fsys) (cleanPath fsys name)
                     (h @ [propfindRequest (client fsys) (cleanPath fsys name) 0,
                           putRequest (client fsys) (cleanPath fsys name) []])) = Inl e3
                  \<longrightarrow> snd (OpenFile e fsys name flg perm h) = Inl e3)"
proof -
  let ?c = "client fsys" and ?p = "cleanPath fsys name"
  let ?pf = "propfindRequest ?c ?p 0" and ?pq = "putRequest ?c ?p []"
  note of = OpenFile_absent_create [OF st ne cr, of perm]
  obtain rest pr where pt: "put e ?c ?p [] (h @ [?pf]) = (h @ [?pf, ?pq], rest, pr)"
    using put_shape [of e ?c ?p "[]" "h @ [?pf]"] by auto
  obtain r2 where s2: "stat e ?c ?p (h @ [?pf, ?pq]) = (h @ [?pf, ?pq, ?pf], r2)"
    using stat_shape [of e ?c ?p "h @ [?pf, ?pq]"] by auto
  show "prefix (h @ [?pf, ?pq]) (fst (OpenFile e fsys name flg perm h))"
    unfolding of
    by (simp add: pt s2 prefix_def split: option.splits sum.splits)
  show "OpenFile e fsys name flg perm h = (h @ [?pf, ?pq], Inl perr)"
    if "snd (snd (put e ?c ?p [] (h @ [?pf]))) = Some perr"
    unfolding of using that by (simp add: pt)
  show "fst (OpenFile e fsys name flg perm h) = h @ [?pf, ?pq, ?pf]
      \<and> (\<forall>fi. snd (stat e ?c ?p (h @ [?pf, ?pq])) = Inr fi
             \<longrightarrow> snd (OpenFile e fsys name flg perm h) = Inr (newFile fsys ?p flg fi))
      \<and> (\<forall>e3. snd (stat e ?c ?p (h @ [?pf, ?pq])) = Inl e3
             \<longrightarrow> snd (OpenFile e fsys name flg perm h) = Inl e3)"
    if "snd (snd (put e ?c ?p [] (h @ [?pf]))) = None"
    unfolding of using that by (simp add: pt s2 split: sum.splits)
qed

lemma OpenFile_trunc_steps:
  assumes st: "snd (stat e (client fsys) (cleanPath fsys name) h) = Inr fi"
    and ex: "\<not> (flg AND O_CREATE \<noteq> 0 \<and> flg AND O_EXCL \<noteq> 0)"
    and tr: "flg AND O_TRUNC \<noteq> 0" and nd: "\<not> fi_isDir fi"
  shows "fst (OpenFile e fsys name flg perm h)
           = h @ [propfindRequest (client fsys) (cleanPath fsys name) 0,
                  putRequest (client fsys) (cleanPath fsys name) []]"
    and "snd (snd (put e (client fsys) (cleanPath fsys name) []
              (h @ [propfindRequest (client fsys) (cleanPath fsys name) 0]))) = Some perr
         \<Longrightarrow> snd (OpenFile e fsys name flg perm h) = Inl perr"
    and "snd (snd (put e (client fsys) (cleanPath fsys name) []
              (h @ [propfindRequest (client fsys) (cleanPath fsys name) 0]))) = None
         \<Longrightarrow> snd (OpenFile e fsys name flg perm h)
               = Inr (newFile fsys (cleanPath fsys name) flg fi)"
proof -
  let ?c = "client fsys" and ?p = "cleanPath fsys name"
  let ?pf = "propfindRequest ?c ?p 0" and ?pq = "putRequest ?c ?p []"
  have of: "OpenFile e fsys name flg perm h =
     (case put e ?c ?p [] (h @ [?pf]) of
        (h2, _, Some perr) \<Rightarrow> (h2, Inl perr)
      | (h2, _, None) \<Rightarrow> (h2, Inr (newFile fsys ?p flg fi)))"
    using OpenFile_exists [OF st, of flg perm] ex tr nd by simp
  obtain rest pr where pt: "put e ?c ?p [] (h @ [?pf]) = (h @ [?pf, ?pq], rest, pr)"
    using put_shape [of e ?c ?p "[]" "h @ [?pf]"] by auto
  show "fst (OpenFile e fsys name flg perm h) = h @ [?pf, ?pq]"
    unfolding of by (simp add: pt split: option.splits)
  show "snd (OpenFile e fsys name flg perm h) = Inl perr"
    if "snd (snd (put e ?c ?p [] (h @ [?pf]))) = Some perr"
    unfolding of using that by (simp add: pt)
  show "snd (OpenFile e fsys name flg perm h) = Inr (newFile fsys ?p flg fi)"
    if "snd (snd (put e ?c ?p [] (h @ [?pf]))) = None"
    unfolding of using that by (simp add: pt)
qed

lemma OpenFile_trunc_handle:
  assumes st: "snd (stat e (client fsys) (cleanPath fsys name) h) = Inr fi"
    and tr: "flg AND O_TRUNC \<noteq> 0" and nd: "\<not> fi_isDir fi"
    and ok: "snd (OpenFile e fsys name flg perm h) = Inr f"
  shows "fst (OpenFile e fsys name flg perm h)
           = h @ [propfindRequest (client fsys) (cleanPath fsys name) 0,
                  putRequest (client fsys) (cleanPath fsys name) []]
         \<and> acceptedPut e (h @ [propfindRequest (client fsys) (cleanPath fsys name) 0])
               (putRequest (client fsys) (cleanPath fsys name) [])
               (buildURL (client fsys) (cleanPath fsys name))"
proof -
  let ?c = "client fsys" and ?p = "cleanPath fsys name"
  let ?pf = "propfindRequest ?c ?p 0" and ?pq = "putRequest ?c ?p []"
  have ex: "\<not> (flg AND O_CREATE \<noteq> 0 \<and> flg AND O_EXCL \<noteq> 0)"
    using OpenFile_exists [OF st, of flg perm] ok by (auto split: if_splits)
  note steps = OpenFile_trunc_steps [OF st ex tr nd, where perm = perm]
  have "snd (snd (put e ?c ?p [] (h @ [?pf]))) = None"
  proof (cases "snd (snd (put e ?c ?p [] (h @ [?pf])))")
    case None
    then show ?thesis .
  next
    case (Some perr)
    from steps(2) [OF this] ok show ?thesis by simp
  qed
  then have "acceptedPut e (h @ [?pf]) ?pq (buildURL ?c ?p)"
    using put_ok [of e ?c ?p "[]" "h @ [?pf]"] by simp
  with steps(1) show ?thesis by simp
qed


text \<open>
  C1. \<open>OpenFile\<close> first stats the cleaned path: the PROPFIND of depth 0 is the first
  request it sends. With \<open>pf\<close> that request and \<open>pq\<close> the PUT of the empty body to the
  same path: if the path does not exist and the create flag is absent, the result is the
  not-exist error and nothing more is sent; if it does not exist and the create flag is
  set, the empty PUT follows the stat, a failed PUT is returned as the error, and after an
  accepted PUT the path is stat-ed again and the handle carries the metadata of that second
  stat; if the path exists and the create and exclusive flags are both set, the result is
  the already-exists error; if it exists, the truncate flag is set and it is not a
  directory, the empty PUT follows the stat and the handle is returned only after the
  server has accepted it.
\<close>

theorem OpenFile_cases:
  "let c = client fsys; p = cleanPath fsys name;
       pf = propfindRequest c p 0; pq = putRequest c p [];
       res = OpenFile e fsys name flg perm h
   in (Method pq = ''PUT'' \<and> url pq = buildURL c p \<and> body pq = [])
    \<and> (fst (stat e c p h) = h @ [pf] \<and> prefix (h @ [pf]) (fst res))
    \<and> (\<forall>err. snd (stat e c p h) = Inl err \<and> IsNotExist err \<and> flg AND O_CREATE = 0
          \<longrightarrow> res = (h @ [pf], Inl (PathError ''open'' p ErrNotExist)))
    \<and> (\<forall>err. snd (stat e c p h) = Inl err \<and> IsNotExist err \<and> flg AND O_CREATE \<noteq> 0
          \<longrightarrow> prefix (h @ [pf, pq]) (fst res)
              \<and> (\<forall>perr. snd (snd (put e c p [] (h @ [pf]))) = Some perr
                     \<longrightarrow> res = (h @ [pf, pq], Inl perr))
              \<and> (snd (snd (put e c p [] (h @ [pf]))) = None
                     \<longrightarrow> fst res = h @ [pf, pq, pf]
                         \<and> (\<forall>fi. snd (stat e c p (h @ [pf, pq])) = Inr fi
                                \<longrightarrow> snd res = Inr (newFile fsys p flg fi))
                         \<and> (\<forall>e3. snd (stat e c p (h @ [pf, pq])) = Inl e3
                                \<longrightarrow> snd res = Inl e3)))
    \<and> (\<forall>fi. snd (stat e c p h) = Inr fi \<and> flg AND O_CREATE \<noteq> 0 \<and> flg AND O_EXCL \<noteq> 0
          \<longrightarrow> res = (h @ [pf], Inl (PathError ''open'' p ErrExist)))
    \<and> (\<forall>fi. snd (stat e c p h) = Inr fi
              \<and> \<not> (flg AND O_CREATE \<noteq> 0 \<and> flg AND O_EXCL \<noteq> 0)
              \<and> flg AND O_TRUNC \<noteq> 0 \<and> \<not> fi_isDir fi
          \<longrightarrow> fst res = h @ [pf, pq]
              \<and> (\<forall>perr. snd (snd (put e c p [] (h @ [pf]))) = Some perr
                     \<longrightarrow> snd res = Inl perr)
              \<and> (snd (snd (put e c p [] (h @ [pf]))) = None
                     \<longrightarrow> snd res = Inr (newFile fsys p flg fi)))
    \<and> (\<forall>fi f. snd (stat e c p h) = Inr fi \<and> flg AND O_TRUNC \<noteq> 0 \<and> \<not> fi_isDir fi
              \<and> snd res = Inr f
          \<longrightarrow> fst res = h @ [pf, pq] \<and> acceptedPut e (h @ [pf]) pq (buildURL c p))"
proof -
  let ?c = "client fsys" and ?p = "cleanPath fsys name"
  let ?pf = "propfindRequest ?c ?p 0" and ?pq = "putRequest ?c ?p []"
  let ?res = "OpenFile e fsys name flg perm h"
  have a: "Method ?pq = ''PUT'' \<and> url ?pq = buildURL ?c ?p \<and> body ?pq = []"
    by (simp add: putRequest_def newRequest_def)
  have b: "fst (stat e ?c ?p h) = h @ [?pf] \<and> prefix (h @ [?pf]) (fst ?res)"
    by (simp add: stat_history OpenFile_prefix)
  have c: "\<forall>err. snd (stat e ?c ?p h) = Inl err \<and> IsNotExist err \<and> flg AND O_CREATE = 0
          \<longrightarrow> ?res = (h @ [?pf], Inl (PathError ''open'' ?p ErrNotExist))"
    using OpenFile_absent_nocreate by blast
  have d: "\<forall>err. snd (stat e ?c ?p h) = Inl err \<and> IsNotExist err \<and> flg AND O_CREATE \<noteq> 0
          \<longrightarrow> prefix (h @ [?pf, ?pq]) (fst ?res)
              \<and> (\<forall>perr. snd (snd (put e ?c ?p [] (h @ [?pf]))) = Some perr
                     \<longrightarrow> ?res = (h @ [?pf, ?pq], Inl perr))
              \<and> (snd (snd (put e ?c ?p [] (h @ [?pf]))) = None
                     \<longrightarrow> fst ?res = h @ [?pf, ?pq, ?pf]
                         \<and> (\<forall>fi. snd (stat e ?c ?p (h @ [?pf, ?pq])) = Inr fi
                                \<longrightarrow> snd ?res = Inr (newFile fsys ?p flg fi))
                         \<and> (\<forall>e3. snd (stat e ?c ?p (h @ [?pf, ?pq])) = Inl e3
                                \<longrightarrow> snd ?res = Inl e3))"
  proof (intro allI impI, elim conjE)
    fix err
    assume st: "snd (stat e ?c ?p h) = Inl err" and ne: "IsNotExist err"
      and cr: "flg AND O_CREATE \<noteq> 0"
    note steps = OpenFile_create_steps [OF st ne cr, where perm = perm]
    show "prefix (h @ [?pf, ?pq]) (fst ?res)
              \<and> (\<forall>perr. snd (snd (put e ?c ?p [] (h @ [?pf]))) = Some perr
                     \<longrightarrow> ?res = (h @ [?pf, ?pq], Inl perr))
              \<and> (snd (snd (put e ?c ?p [] (h @ [?pf]))) = None
                     \<longrightarrow> fst ?res = h @ [?pf, ?pq, ?pf]
                         \<and> (\<forall>fi. snd (stat e ?c ?p (h @ [?pf, ?pq])) = Inr fi
                                \<longrightarrow> snd ?res = Inr (newFile fsys ?p flg fi))
                         \<and> (\<forall>e3. snd (stat e ?c ?p (h @ [?pf, ?pq])) = Inl e3
                                \<longrightarrow> snd ?res = Inl e3))"
      using steps(1) steps(2) steps(3) by blast
  qed
  have e: "\<forall>fi. snd (stat e ?c ?p h) = Inr fi \<and> flg AND O_CREATE \<noteq> 0 \<and> flg AND O_EXCL \<noteq> 0
          \<longrightarrow> ?res = (h @ [?pf], Inl (PathError ''open'' ?p ErrExist))"
    using OpenFile_exists [of e fsys name h _ flg perm] by auto
  have f: "\<forall>fi. snd (stat e ?c ?p h) = Inr fi
              \<and> \<not> (flg AND O_CREATE \<noteq> 0 \<and> flg AND O_EXCL \<noteq> 0)
              \<and> flg AND O_TRUNC \<noteq> 0 \<and> \<not> fi_isDir fi
          \<longrightarrow> fst ?res = h @ [?pf, ?pq]
              \<and> (\<forall>perr. snd (snd (put e ?c ?p [] (h @ [?pf]))) = Some perr
                     \<longrightarrow> snd ?res = Inl perr)
              \<and> (snd (snd (put e ?c ?p [] (h @ [?pf]))) = None
                     \<longrightarrow> snd ?res = Inr (newFile fsys ?p flg fi))"
  proof (intro allI impI, elim conjE)
    fix fi
    assume st: "snd (stat e ?c ?p h) = Inr fi"
      and ex: "\<not> (flg AND O_CREATE \<noteq> 0 \<and> flg AND O_EXCL \<noteq> 0)"
      and tr: "flg AND O_TRUNC \<noteq> 0" and nd: "\<not> fi_isDir fi"
    note steps = OpenFile_trunc_steps [OF st ex tr nd, where perm = perm]
    show "fst ?res = h @ [?pf, ?pq]
              \<and> (\<forall>perr. snd (snd (put e ?c ?p [] (h @ [?pf]))) = Some perr
                     \<longrightarrow> snd ?res = Inl perr)
              \<and> (snd (snd (put e ?c ?p [] (h @ [?pf]))) = None
                     \<longrightarrow> snd ?res = Inr (newFile fsys ?p flg fi))"
      using steps(1) steps(2) steps(3) by blast
  qed
  have g: "\<forall>fi f. snd (stat e ?c ?p h) = Inr fi \<and> flg AND O_TRUNC \<noteq> 0 \<and> \<not> fi_isDir fi
              \<and> snd ?res = Inr f
          \<longrightarrow> fst ?res = h @ [?pf, ?pq] \<and> acceptedPut e (h @ [?pf]) ?pq (buildURL ?c ?p)"
    using OpenFile_trunc_handle by blast
  show ?thesis
    unfolding Let_def
    by (rule conjI [OF a conjI [OF b conjI [OF c conjI [OF d conjI [OF e conjI [OF f g]]]]]])
qed


theorem OpenFile_cases_witness:
  "snd (stat demoEnv (client demoFS) (cleanPath demoFS ''/missing'') [])
      = Inl (PathError ''stat'' ''/missing'' ErrNotExist)
   \<and> O_RDONLY AND O_CREATE = 0
   \<and> snd (OpenFile demoEnv demoFS ''/missing'' O_RDONLY 0 [])
       = Inl (PathError ''open'' ''/missing'' ErrNotExist)
   \<and> (O_RDWR OR O_CREATE) AND O_CREATE \<noteq> 0
   \<and> snd (snd (put demoEnv (client demoFS) (cleanPath demoFS ''/new.txt'') []
                 [propfindRequest (client demoFS) (cleanPath demoFS ''/new.txt'') 0])) = None
   \<and> map (\<lambda>r. (Method r, url r, body r)) (fst (OpenFile demoEnv demoFS ''/new.txt'' (O_RDWR OR O_CREATE) 0 []))
       = [(''PROPFIND'', ''/dav/new.txt'', buildPropfindBody), (''PUT'', ''/dav/new.txt'', []),
          (''PROPFIND'', ''/dav/new.txt'', buildPropfindBody)]
   \<and> snd (stat demoEnv (client demoFS) (cleanPath demoFS ''/test.txt'') [])
       = Inr \<lparr>fi_name = ''test.txt'', fi_size = 11, fi_mode = 0x1A4, fi_modTime = 1,
               fi_isDir = False\<rparr>
   \<and> (O_WRONLY OR O_CREATE OR O_EXCL) AND O_CREATE \<noteq> 0
   \<and> (O_WRONLY OR O_CREATE OR O_EXCL) AND O_EXCL \<noteq> 0
   \<and> snd (OpenFile demoEnv demoFS ''/test.txt'' (O_WRONLY OR O_CREATE OR O_EXCL) 0 [])
       = Inl (PathError ''open'' ''/test.txt'' ErrExist)
   \<and> (O_WRONLY OR O_TRUNC) AND O_TRUNC \<noteq> 0
   \<and> map (\<lambda>r. (Method r, url r, body r)) (fst (OpenFile demoEnv demoFS ''/test.txt'' (O_WRONLY OR O_TRUNC) 0 []))
       = [(''PROPFIND'', ''/dav/test.txt'', buildPropfindBody), (''PUT'', ''/dav/test.txt'', [])]"
proof -
  have flags: "O_RDONLY AND O_CREATE = 0" "(O_RDWR OR O_CREATE) AND O_CREATE \<noteq> 0"
    "(O_WRONLY OR O_CREATE OR O_EXCL) AND O_CREATE \<noteq> 0"
    "(O_WRONLY OR O_CREATE OR O_EXCL) AND O_EXCL \<noteq> 0"
    "(O_WRONLY OR O_TRUNC) AND O_TRUNC \<noteq> 0"
    "\<not> ((O_WRONLY OR O_TRUNC) AND O_CREATE \<noteq> 0 \<and> (O_WRONLY OR O_TRUNC) AND O_EXCL \<noteq> 0)"
    by (simp_all add: O_RDONLY_def O_WRONLY_def O_RDWR_def O_CREATE_def O_EXCL_def O_TRUNC_def)
  have cp: "cleanPath demoFS ''/missing'' = ''/missing''"
    "cleanPath demoFS ''/new.txt'' = ''/new.txt''" "cleanPath demoFS ''/test.txt'' = ''/test.txt''"
    by (simp_all add: demo_eval)
  have urls: "buildURL demoClient ''/missing'' = ''/dav/missing''"
    "buildURL demoClient ''/new.txt'' = ''/dav/new.txt''"
    "buildURL demoClient ''/test.txt'' = ''/dav/test.txt''"
    by (simp_all add: demo_eval)
  have cl: "client demoFS = demoClient" by (simp add: demoFS_def)
  have reqs: "\<And>p d. Method (propfindRequest demoClient p d) = ''PROPFIND''"
    "\<And>p d. url (propfindRequest demoClient p d) = buildURL demoClient p"
    "\<And>p d. body (propfindRequest demoClient p d) = buildPropfindBody"
    "\<And>p d. Method (putRequest demoClient p d) = ''PUT''"
    "\<And>p d. url (putRequest demoClient p d) = buildURL demoClient p"
    "\<And>p d. body (putRequest demoClient p d) = d"
    by (simp_all add: propfindRequest_def putRequest_def newRequest_def)
  have do_missing: "Do demoEnv [] (propfindRequest demoClient ''/missing'' 0)
      = Response 404 ''Not Found'' None (length buildPropfindBody)"
    by (simp add: demoEnv_def demoDo_def reqs urls)
  have st_missing: "snd (stat demoEnv (client demoFS) (cleanPath demoFS ''/missing'') [])
      = Inl (PathError ''stat'' ''/missing'' ErrNotExist)"
    by (simp add: cp cl stat_def propfind_Response [OF do_missing])
  have do_new: "Do demoEnv [] (propfindRequest demoClient ''/new.txt'' 0)
      = Response 404 ''Not Found'' None (length buildPropfindBody)"
    by (simp add: demoEnv_def demoDo_def reqs urls)
  have st_new: "snd (stat demoEnv (client demoFS) (cleanPath demoFS ''/new.txt'') [])
      = Inl (PathError ''stat'' ''/new.txt'' ErrNotExist)"
    by (simp add: cp cl stat_def propfind_Response [OF do_new])
  have do_put: "Do demoEnv [propfindRequest demoClient ''/new.txt'' 0]
      (putRequest demoClient ''/new.txt'' []) = Response 201 [] None 0"
    by (simp add: demoEnv_def demoDo_def reqs)
  have put_new: "snd (snd (put demoEnv (client demoFS) (cleanPath demoFS ''/new.txt'') []
                 [propfindRequest (client demoFS) (cleanPath demoFS ''/new.txt'') 0])) = None"
    using put_Response [OF do_put] by (simp add: cp cl)
  have do_test: "Do demoEnv [] (propfindRequest demoClient ''/test.txt'' 0)
      = Response 207 [] (Some \<lparr>Responses = [entry ''/dav/test.txt'' ''11'' False]\<rparr>)
          (length buildPropfindBody)"
    by (simp add: demoEnv_def demoDo_def reqs urls)
  have pfi: "parseFileInfo demoEnv h (entry ''/dav/test.txt'' ''11'' False) ''/test.txt''
      = Inr \<lparr>fi_name = ''test.txt'', fi_size = 11, fi_mode = 0x1A4,
               fi_modTime = int (length h), fi_isDir = False\<rparr>" for h
    by (simp add: parseFileInfo_def Let_def entry_def Base_def TrimPrefix_def HasPrefix_def
          ParseInt_def isDigit_def demoEnv_def)
  have st_test: "snd (stat demoEnv (client demoFS) (cleanPath demoFS ''/test.txt'') [])
      = Inr \<lparr>fi_name = ''test.txt'', fi_size = 11, fi_mode = 0x1A4, fi_modTime = 1,
               fi_isDir = False\<rparr>"
    by (simp add: cp cl stat_def propfind_Response [OF do_test] pfi)
  note T1 = OpenFile_cases [where fsys = demoFS and name = "''/missing''" and e = demoEnv
      and flg = O_RDONLY and perm = 0 and h = "[]", unfolded Let_def]
  have r1: "snd (OpenFile demoEnv demoFS ''/missing'' O_RDONLY 0 [])
       = Inl (PathError ''open'' ''/missing'' ErrNotExist)"
    using T1 [THEN conjunct2, THEN conjunct2, THEN conjunct1, rule_format,
              of "PathError ''stat'' ''/missing'' ErrNotExist"] st_missing flags(1)
    by (simp add: cp)
  note T2 = OpenFile_cases [where fsys = demoFS and name = "''/new.txt''" and e = demoEnv
      and flg = "O_RDWR OR O_CREATE" and perm = 0 and h = "[]", unfolded Let_def]
  have "fst (OpenFile demoEnv demoFS ''/new.txt'' (O_RDWR OR O_CREATE) 0 [])
       = [propfindRequest demoClient ''/new.txt'' 0, putRequest demoClient ''/new.txt'' [],
          propfindRequest demoClient ''/new.txt'' 0]"
    using T2 [THEN conjunct2, THEN conjunct2, THEN conjunct2, THEN conjunct1, rule_format,
              of "PathError ''stat'' ''/new.txt'' ErrNotExist"] st_new flags(2) put_new
    by (simp add: cp cl)
  then have r2: "map (\<lambda>r. (Method r, url r, body r))
        (fst (OpenFile demoEnv demoFS ''/new.txt'' (O_RDWR OR O_CREATE) 0 []))
       = [(''PROPFIND'', ''/dav/new.txt'', buildPropfindBody), (''PUT'', ''/dav/new.txt'', []),
          (''PROPFIND'', ''/dav/new.txt'', buildPropfindBody)]"
    by (simp add: reqs urls)
  note T3 = OpenFile_cases [where fsys = demoFS and name = "''/test.txt''" and e = demoEnv
      and flg = "O_WRONLY OR O_CREATE OR O_EXCL" and perm = 0 and h = "[]", unfolded Let_def]
  have r3: "snd (OpenFile demoEnv demoFS ''/test.txt'' (O_WRONLY OR O_CREATE OR O_EXCL) 0 [])
       = Inl (PathError ''open'' ''/test.txt'' ErrExist)"
    using T3 [THEN conjunct2, THEN conjunct2, THEN conjunct2, THEN conjunct2, THEN conjunct1,
              rule_format, OF conjI [OF st_test conjI [OF flags(3) flags(4)]]]
    by (simp add: cp)
  note T4 = OpenFile_cases [where fsys = demoFS and name = "''/test.txt''" and e = demoEnv
      and flg = "O_WRONLY OR O_TRUNC" and perm = 0 and h = "[]", unfolded Let_def]
  have "fst (OpenFile demoEnv demoFS ''/test.txt'' (O_WRONLY OR O_TRUNC) 0 [])
       = [propfindRequest demoClient ''/test.txt'' 0, putRequest demoClient ''/test.txt'' []]"
    using T4 [THEN conjunct2, THEN conjunct2, THEN conjunct2, THEN conjunct2, THEN conjunct2,
              THEN conjunct1, rule_format,
              OF conjI [OF st_test conjI [OF flags(6) conjI [OF flags(5)]]]]
    by (simp add: cp cl)
  then have r4: "map (\<lambda>r. (Method r, url r, body r))
        (fst (OpenFile demoEnv demoFS ''/test.txt'' (O_WRONLY OR O_TRUNC) 0 []))
       = [(''PROPFIND'', ''/dav/test.txt'', buildPropfindBody), (''PUT'', ''/dav/test.txt'', [])]"
    by (simp add: reqs urls)
  from st_missing flags r1 put_new r2 st_test r3 r4 show ?thesis
    by (intro conjI)
qed

section \<open>Properties of the file handle\<close>

lemma seekTo_negative:
  "sint newOffset < 0 \<Longrightarrow> seekTo f off whence newOffset = (f, Inl (InvalidSeekError off whence))"
  by (simp add: seekTo_def)

lemma seekTo_error_offset:
  "snd (seekTo f off whence newOffset) = Inl err \<Longrightarrow> offset (fst (seekTo f off whence newOffset)) = offset f"
  by (simp add: seekTo_def split: if_splits)

lemma Seek_error_offset:
  assumes "snd (snd (Seek e f off whence h)) = Inl err"
  shows "offset (fst (snd (Seek e f off whence h))) = offset f"
proof (cases "closed f")
  case True
  then show ?thesis by (simp add: Seek_def)
next
  case isopen: False
  consider "whence = SeekStart" | "whence = SeekCurrent" | "whence = SeekEnd"
    | "whence \<noteq> SeekStart" "whence \<noteq> SeekCurrent" "whence \<noteq> SeekEnd" by blast
  then show ?thesis
  proof cases
    case 1
    with isopen assms show ?thesis
      by (simp add: Seek_def seekTo_def split: if_splits)
  next
    case 2
    with isopen assms show ?thesis
      by (simp add: Seek_def seekTo_def SeekStart_def SeekCurrent_def split: if_splits)
  next
    case 3
    show ?thesis
    proof (cases "info f")
      case (Some fi)
      with 3 isopen assms show ?thesis
        by (simp add: Seek_def seekTo_def SeekStart_def SeekCurrent_def SeekEnd_def
              split: if_splits)
    next
      case None
      obtain h' r where st: "stat e (client (fs f)) (path f) h = (h', r)"
        by (cases "stat e (client (fs f)) (path f) h") auto
      show ?thesis
      proof (cases r)
        case (Inl a)
        with 3 isopen None st show ?thesis
          by (simp add: Seek_def SeekStart_def SeekCurrent_def SeekEnd_def)
      next
        case (Inr fi)
        with 3 isopen None st assms show ?thesis
          by (simp add: Seek_def seekTo_def SeekStart_def SeekCurrent_def SeekEnd_def
                split: if_splits)
      qed
    qed
  next
    case 4
    with isopen show ?thesis by (simp add: Seek_def)
  qed
qed

text \<open>
  C6. On an open handle, \<open>Seek\<close> with a \<open>whence\<close> other than start, current or end,
  or with an offset and \<open>whence\<close> for which the new offset that the code computes (in
  64-bit arithmetic) is negative, returns an error, and every \<open>Seek\<close> that returns an
  error leaves the stored offset as it was.
\<close>

theorem Seek_invalid:
  assumes "\<not> closed f"
  shows "(whence \<noteq> SeekStart \<and> whence \<noteq> SeekCurrent \<and> whence \<noteq> SeekEnd
            \<longrightarrow> Seek e f off whence h = (h, f, Inl (InvalidSeekError off whence)))
       \<and> (whence = SeekStart \<and> sint off < 0
            \<longrightarrow> Seek e f off whence h = (h, f, Inl (InvalidSeekError off whence)))
       \<and> (whence = SeekCurrent \<and> sint (offset f + off) < 0
            \<longrightarrow> Seek e f off whence h = (h, f, Inl (InvalidSeekError off whence)))
       \<and> (\<forall>fi. whence = SeekEnd \<and> info f = Some fi \<and> sint (fi_size fi + off) < 0
            \<longrightarrow> Seek e f off whence h = (h, f, Inl (InvalidSeekError off whence)))
       \<and> (\<forall>fi. whence = SeekEnd \<and> info f = None
               \<and> snd (stat e (client (fs f)) (path f) h) = Inr fi \<and> sint (fi_size fi + off) < 0
            \<longrightarrow> Seek e f off whence h
                = (fst (stat e (client (fs f)) (path f) h), f\<lparr>info := Some fi\<rparr>,
                   Inl (InvalidSeekError off whence)))
       \<and> (\<forall>err. snd (snd (Seek e f off whence h)) = Inl err
            \<longrightarrow> offset (fst (snd (Seek e f off whence h))) = offset f)"
proof -
  have a: "whence \<noteq> SeekStart \<and> whence \<noteq> SeekCurrent \<and> whence \<noteq> SeekEnd
            \<longrightarrow> Seek e f off whence h = (h, f, Inl (InvalidSeekError off whence))"
    using assms by (simp add: Seek_def)
  have b: "whence = SeekStart \<and> sint off < 0
            \<longrightarrow> Seek e f off whence h = (h, f, Inl (InvalidSeekError off whence))"
    using assms by (simp add: Seek_def seekTo_negative)
  have c: "whence = SeekCurrent \<and> sint (offset f + off) < 0
            \<longrightarrow> Seek e f off whence h = (h, f, Inl (InvalidSeekError off whence))"
    using assms by (simp add: Seek_def seekTo_negative SeekStart_def SeekCurrent_def)
  have d: "\<forall>fi. whence = SeekEnd \<and> info f = Some fi \<and> sint (fi_size fi + off) < 0
            \<longrightarrow> Seek e f off whence h = (h, f, Inl (InvalidSeekError off whence))"
    using assms
    by (simp add: Seek_def seekTo_negative SeekStart_def SeekCurrent_def SeekEnd_def)
  have e: "\<forall>fi. whence = SeekEnd \<and> info f = None
               \<and> snd (stat e (client (fs f)) (path f) h) = Inr fi \<and> sint (fi_size fi + off) < 0
            \<longrightarrow> Seek e f off whence h
                = (fst (stat e (client (fs f)) (path f) h), f\<lparr>info := Some fi\<rparr>,
                   Inl (InvalidSeekError off whence))"
    using assms
    by (cases "stat e (client (fs f)) (path f) h")
       (simp add: Seek_def seekTo_negative SeekStart_def SeekCurrent_def SeekEnd_def)
  have g: "\<forall>err. snd (snd (Seek e f off whence h)) = Inl err
            \<longrightarrow> offset (fst (snd (Seek e f off whence h))) = offset f"
    using Seek_error_offset by blast
  show ?thesis
    by (rule conjI [OF a conjI [OF b conjI [OF c conjI [OF d conjI [OF e g]]]]])
qed


theorem Seek_invalid_witness:
  "\<not> closed testFile
   \<and> (7 \<noteq> SeekStart \<and> 7 \<noteq> SeekCurrent \<and> 7 \<noteq> SeekEnd)
   \<and> Seek demoEnv testFile 3 7 [] = ([], testFile, Inl (InvalidSeekError 3 7))
   \<and> sint (- 1 :: 64 word) < 0
   \<and> Seek demoEnv testFile (- 1) SeekStart [] = ([], testFile, Inl (InvalidSeekError (- 1) SeekStart))
   \<and> sint (offset testFile + (- 5)) < 0
   \<and> Seek demoEnv testFile (- 5) SeekCurrent []
       = ([], testFile, Inl (InvalidSeekError (- 5) SeekCurrent))
   \<and> info testFile = Some testInfo \<and> sint (fi_size testInfo + (- 12)) < 0
   \<and> Seek demoEnv testFile (- 12) SeekEnd [] = ([], testFile, Inl (InvalidSeekError (- 12) SeekEnd))
   \<and> offset (fst (snd (Seek demoEnv testFile (- 12) SeekEnd []))) = offset testFile"
proof -
  have op: "\<not> closed testFile" by (simp add: testFile_def newFile_def)
  have wh: "7 \<noteq> SeekStart \<and> 7 \<noteq> SeekCurrent \<and> 7 \<noteq> SeekEnd"
    by (simp add: SeekStart_def SeekCurrent_def SeekEnd_def)
  have n1: "sint (- 1 :: 64 word) < 0" by simp
  have n2: "sint (offset testFile + (- 5)) < 0"
    by (simp add: testFile_def newFile_def O_RDWR_def O_APPEND_def)
  have inf: "info testFile = Some testInfo" by (simp add: testFile_def newFile_def)
  have n3: "sint (fi_size testInfo + (- 12)) < 0" by (simp add: testInfo_def)
  note T = Seek_invalid [OF op]
  have r1: "Seek demoEnv testFile 3 7 [] = ([], testFile, Inl (InvalidSeekError 3 7))"
    using T [of 7 demoEnv 3 "[]", THEN conjunct1] wh by (rule mp)
  have r2: "Seek demoEnv testFile (- 1) SeekStart []
      = ([], testFile, Inl (InvalidSeekError (- 1) SeekStart))"
    using T [of SeekStart demoEnv "- 1" "[]", THEN conjunct2, THEN conjunct1] n1 by simp
  have r3: "Seek demoEnv testFile (- 5) SeekCurrent []
       = ([], testFile, Inl (InvalidSeekError (- 5) SeekCurrent))"
    using T [of SeekCurrent demoEnv "- 5" "[]", THEN conjunct2, THEN conjunct2, THEN conjunct1] n2
    by simp
  have r4: "Seek demoEnv testFile (- 12) SeekEnd []
      = ([], testFile, Inl (InvalidSeekError (- 12) SeekEnd))"
    using T [of SeekEnd demoEnv "- 12" "[]", THEN conjunct2, THEN conjunct2, THEN conjunct2,
             THEN conjunct1, rule_format, of testInfo] inf n3
    by simp
  have r5: "offset (fst (snd (Seek demoEnv testFile (- 12) SeekEnd []))) = offset testFile"
    using T [of SeekEnd demoEnv "- 12" "[]", THEN conjunct2, THEN conjunct2, THEN conjunct2,
             THEN conjunct2, THEN conjunct2, rule_format,
             of "InvalidSeekError (- 12) SeekEnd"] r4
    by simp
  from op wh r1 n1 r2 n2 r3 inf n3 r4 r5 show ?thesis by blast
qed

lemma storedAfter_snoc:
  "storedAfter e pre (xs @ [r]) u cur =
     (if acceptedPut e (pre @ xs) r u then Some (take (bodyRead e (pre @ xs) r) (body r))
      else storedAfter e pre xs u cur)"
  by (induction xs arbitrary: pre cur) simp_all

lemma storedContent_snoc:
  "acceptedPut e h r u \<Longrightarrow> storedContent e (h @ [r]) u = Some (take (bodyRead e h r) (body r))"
  by (simp add: storedContent_def storedAfter_snoc)

lemma Write_Inr:
  assumes "Write f b = (f', Inr n)"
  shows "\<not> closed f \<and> n = length b
         \<and> f' = f\<lparr>buffer := Some ((case buffer f of None \<Rightarrow> [] | Some x \<Rightarrow> x) @ b),
                   offset := offset f + word_of_nat (length b), modified := True\<rparr>"
  using assms by (auto simp: Write_def Let_def split: if_splits option.splits)

lemma Sync_None_flush:
  assumes "Sync e f h = (h', f', None)" and "\<not> closed f" and "modified f" and "buffer f = Some d"
  shows "h' = h @ [putRequest (client (fs f)) (path f) d]
         \<and> f' = f\<lparr>buffer := Some (drop (bodyRead e h (putRequest (client (fs f)) (path f) d)) d),
                   modified := False\<rparr>
         \<and> acceptedPut e h (putRequest (client (fs f)) (path f) d) (buildURL (client (fs f)) (path f))"
proof -
  obtain h1 rest r where pt: "put e (client (fs f)) (path f) d h = (h1, rest, r)"
    by (cases "put e (client (fs f)) (path f) d h") auto
  from assms pt have r: "r = None" and "h' = h1" and f': "f' = f\<lparr>buffer := Some rest, modified := False\<rparr>"
    by (auto simp: Sync_def split: option.splits)
  from pt r have "snd (snd (put e (client (fs f)) (path f) d h)) = None" by simp
  from put_ok [OF this] pt \<open>h' = h1\<close> f' show ?thesis by simp
qed

lemma Close_None_flush:
  assumes "Close e f h = (h', f', None)" and "\<not> closed f" and "modified f" and "buffer f = Some d"
  shows "h' = h @ [putRequest (client (fs f)) (path f) d]
         \<and> acceptedPut e h (putRequest (client (fs f)) (path f) d) (buildURL (client (fs f)) (path f))"
proof -
  obtain h1 rest r where pt: "put e (client (fs f)) (path f) d h = (h1, rest, r)"
    by (cases "put e (client (fs f)) (path f) d h") auto
  from assms pt have r: "r = None" and "h' = h1"
    by (auto simp: Close_def Let_def split: option.splits)
  from pt r have "snd (snd (put e (client (fs f)) (path f) d h)) = None" by simp
  from put_ok [OF this] pt \<open>h' = h1\<close> show ?thesis by simp
qed

text \<open>
  C10 (as amended). \<open>Sync\<close> hands the buffer itself to \<open>put\<close> as the body reader, and
  the buffer is drained as far as the transport reads it. If on a handle \<open>Write b1\<close>,
  \<open>Sync\<close>, \<open>Write b2\<close> and \<open>Close\<close> all succeed, then after the \<open>Sync\<close> the modified
  flag is cleared and the buffer holds what the transport left unread of it, and the PUT
  that \<open>Close\<close> sends carries that rest followed by \<open>b2\<close>. When the transport read
  the whole body of the \<open>Sync\<close> request, the buffer is empty after the \<open>Sync\<close> and the
  PUT of \<open>Close\<close> has exactly \<open>b2\<close> as its body; when that body is read to its end
  too, the content of the remote file is then \<open>b2\<close> alone.
\<close>

theorem Sync_leaves_unread:
  assumes w1: "Write f b1 = (f1, Inr n1)"
    and sy: "Sync e f1 h = (h1, f2, None)"
    and w2: "Write f2 b2 = (f3, Inr n2)"
    and cl: "Close e f3 h1 = (h2, f4, None)"
  shows "let c = client (fs f); p = path f;
             d1 = (case buffer f of None \<Rightarrow> [] | Some x \<Rightarrow> x) @ b1;
             rest = drop (bodyRead e h (putRequest c p d1)) d1
         in \<not> modified f2
          \<and> h1 = h @ [putRequest c p d1]
          \<and> buffer f2 = Some rest
          \<and> h2 = h1 @ [putRequest c p (rest @ b2)]
          \<and> body (putRequest c p (rest @ b2)) = rest @ b2
          \<and> (length d1 \<le> bodyRead e h (putRequest c p d1)
               \<longrightarrow> buffer f2 = Some [] \<and> h2 = h1 @ [putRequest c p b2]
                   \<and> (length b2 \<le> bodyRead e h1 (putRequest c p b2)
                        \<longrightarrow> storedContent e h2 (buildURL c p) = Some b2))"
proof -
  let ?c = "client (fs f)" and ?p = "path f"
  let ?d = "(case buffer f of None \<Rightarrow> [] | Some x \<Rightarrow> x) @ b1"
  let ?rest = "drop (bodyRead e h (putRequest ?c ?p ?d)) ?d"
  from Write_Inr [OF w1] have op: "\<not> closed f"
    and f1: "f1 = f\<lparr>buffer := Some ?d, offset := offset f + word_of_nat (length b1),
                     modified := True\<rparr>"
    by simp_all
  have same1: "fs f1 = fs f" "path f1 = path f" by (simp_all add: f1)
  have s: "h1 = h @ [putRequest (client (fs f1)) (path f1) ?d]
         \<and> f2 = f1\<lparr>buffer := Some (drop (bodyRead e h (putRequest (client (fs f1)) (path f1) ?d)) ?d),
                    modified := False\<rparr>
         \<and> acceptedPut e h (putRequest (client (fs f1)) (path f1) ?d)
              (buildURL (client (fs f1)) (path f1))"
    using op by (intro Sync_None_flush [OF sy]) (simp_all add: f1)
  from s have h1: "h1 = h @ [putRequest ?c ?p ?d]" by (simp only: same1)
  from s have f2: "f2 = f1\<lparr>buffer := Some ?rest, modified := False\<rparr>" by (simp only: same1)
  from Write_Inr [OF w2] have f3: "f3 = f2\<lparr>buffer := Some (?rest @ b2),
       offset := offset f2 + word_of_nat (length b2), modified := True\<rparr>"
    by (simp add: f2)
  have same3: "fs f3 = fs f" "path f3 = path f" by (simp_all add: f3 f2 f1)
  have c: "h2 = h1 @ [putRequest (client (fs f3)) (path f3) (?rest @ b2)]
         \<and> acceptedPut e h1 (putRequest (client (fs f3)) (path f3) (?rest @ b2))
              (buildURL (client (fs f3)) (path f3))"
    using op by (intro Close_None_flush [OF cl]) (simp_all add: f3 f2 f1)
  from c have h2: "h2 = h1 @ [putRequest ?c ?p (?rest @ b2)]"
    and acc: "acceptedPut e h1 (putRequest ?c ?p (?rest @ b2)) (buildURL ?c ?p)"
    by (simp_all only: same3)
  have bd: "body (putRequest ?c ?p x) = x" for x
    by (simp add: putRequest_def newRequest_def)
  have m: "\<not> modified f2" and bf: "buffer f2 = Some ?rest" by (simp_all add: f2)
  have full: "buffer f2 = Some [] \<and> h2 = h1 @ [putRequest ?c ?p b2]
                   \<and> (length b2 \<le> bodyRead e h1 (putRequest ?c ?p b2)
                        \<longrightarrow> storedContent e h2 (buildURL ?c ?p) = Some b2)"
    if all: "length ?d \<le> bodyRead e h (putRequest ?c ?p ?d)"
  proof -
    from all have r0: "?rest = []" by simp
    from bf r0 have b0: "buffer f2 = Some []" by simp
    from h2 r0 have h2': "h2 = h1 @ [putRequest ?c ?p b2]" by simp
    from acc r0 have acc': "acceptedPut e h1 (putRequest ?c ?p b2) (buildURL ?c ?p)" by simp
    have "storedContent e h2 (buildURL ?c ?p) = Some b2"
      if "length b2 \<le> bodyRead e h1 (putRequest ?c ?p b2)"
      unfolding h2' using storedContent_snoc [OF acc'] that by (simp add: bd)
    with b0 h2' show ?thesis by blast
  qed
  from m h1 bf h2 bd [of "?rest @ b2"] full show ?thesis
    unfolding Let_def by blast
qed

theorem Sync_leaves_unread_witness:
  "Write testFile ''hello'' = (afterWrite1, Inr 5)
   \<and> afterSync = (fst afterSync, fst (snd afterSync), None)
   \<and> Write (fst (snd afterSync)) ''world'' = (afterWrite2, Inr 5)
   \<and> afterClose = (fst afterClose, fst (snd afterClose), None)
   \<and> length ''hello'' \<le> bodyRead demoEnv [] (putRequest demoClient ''/test.txt'' ''hello'')
   \<and> length ''world'' \<le> bodyRead demoEnv (fst afterSync) (putRequest demoClient ''/test.txt'' ''world'')
   \<and> buffer (fst (snd afterSync)) = Some []
   \<and> map body (fst afterClose) = [''hello'', ''world'']
   \<and> storedContent demoEnv (fst afterClose) ''/dav/test.txt'' = Some ''world''"
proof -
  have tf: "fs testFile = demoFS" "path testFile = ''/test.txt''" "buffer testFile = None"
    "\<not> closed testFile" "info testFile = Some testInfo"
    "flag testFile AND (O_WRONLY OR O_RDWR) \<noteq> 0" "\<not> fi_isDir testInfo"
    by (simp_all add: testFile_def newFile_def testInfo_def O_WRONLY_def O_RDWR_def)
  have cl: "client demoFS = demoClient" by (simp add: demoFS_def)
  have f1: "afterWrite1 = testFile\<lparr>buffer := Some ''hello'',
      offset := offset testFile + word_of_nat (length ''hello''), modified := True\<rparr>"
    unfolding afterWrite1_def by (simp add: Write_def tf Let_def)
  have w1: "Write testFile ''hello'' = (afterWrite1, Inr 5)"
    unfolding f1 by (simp add: Write_def tf Let_def)
  have doput: "Do demoEnv h (putRequest demoClient p d) = Response 201 [] None (length d)" for h p d
    by (simp add: demoEnv_def demoDo_def putRequest_def newRequest_def)
  have rd: "bodyRead demoEnv h (putRequest demoClient p d) = length d" for h p d
    by (simp add: bodyRead_def doput)
  have sy: "afterSync = ([putRequest demoClient ''/test.txt'' ''hello''],
      afterWrite1\<lparr>buffer := Some [], modified := False\<rparr>, None)"
    unfolding afterSync_def
    by (simp add: Sync_def f1 tf cl put_Response [OF doput])
  have f3: "afterWrite2 = afterWrite1\<lparr>buffer := Some ''world'',
      offset := offset afterWrite1 + word_of_nat (length ''world''), modified := True\<rparr>"
    unfolding afterWrite2_def sy by (simp add: Write_def f1 tf Let_def)
  have w2: "Write (fst (snd afterSync)) ''world'' = (afterWrite2, Inr 5)"
    unfolding f3 sy by (simp add: Write_def f1 tf Let_def)
  have cs: "snd (snd afterClose) = None"
    unfolding afterClose_def
    by (simp add: Close_def Let_def f3 f1 tf cl sy put_Response [OF doput])
  have sy': "Sync demoEnv afterWrite1 [] = (fst afterSync, fst (snd afterSync), None)"
    unfolding afterSync_def [symmetric] by (simp add: sy)
  have cl': "Close demoEnv afterWrite2 (fst afterSync) = (fst afterClose, fst (snd afterClose), None)"
    unfolding afterClose_def [symmetric] by (simp add: prod_eq_iff cs)
  have cp: "client (fs testFile) = demoClient" "path testFile = ''/test.txt''"
    by (simp_all add: tf cl)
  have d1: "(case buffer testFile of None \<Rightarrow> [] | Some x \<Rightarrow> x) @ ''hello'' = ''hello''"
    by (simp add: tf)
  have r1: "length ''hello'' \<le> bodyRead demoEnv [] (putRequest demoClient ''/test.txt'' ''hello'')"
    by (simp add: rd)
  have r2: "length ''world''
      \<le> bodyRead demoEnv (fst afterSync) (putRequest demoClient ''/test.txt'' ''world'')"
    by (simp add: rd)
  note T = Sync_leaves_unread [OF w1 sy' w2 cl', unfolded Let_def cp d1]
  note F = T [THEN conjunct2, THEN conjunct2, THEN conjunct2, THEN conjunct2, THEN conjunct2,
              THEN mp, OF r1]
  note buf = F [THEN conjunct1]
  note st0 = F [THEN conjunct2, THEN conjunct2, THEN mp, OF r2]
  have url: "buildURL demoClient ''/test.txt'' = ''/dav/test.txt''"
    by (simp add: demo_eval)
  note st = st0 [unfolded url]
  from F [THEN conjunct2, THEN conjunct1]
  have bodies: "map body (fst afterClose) = [''hello'', ''world'']"
    by (simp add: sy putRequest_def newRequest_def)
  have a2: "afterSync = (fst afterSync, fst (snd afterSync), None)" by (simp add: sy)
  have a4: "afterClose = (fst afterClose, fst (snd afterClose), None)"
    by (simp add: prod_eq_iff cs)
  from w1 a2 w2 a4 r1 r2 buf bodies st show ?thesis by blast
qed

text \<open>
  On the server that answers after 65536 bytes, the \<open>Sync\<close> of one MiB succeeds and
  leaves the other 983040 bytes in the buffer, and the PUT of \<open>Close\<close> carries them
  followed by \<open>world\<close>, not \<open>world\<close> alone.
\<close>

theorem Sync_buffer_not_empty_counterexample:
  "Write testFile bigData = (bigWrite, Inr 1048576)
   \<and> snd (snd hastySync) = None
   \<and> buffer (fst (snd hastySync)) = Some (replicate 983040 (CHR ''a''))
   \<and> Write (fst (snd hastySync)) ''world'' = (hastyWrite2, Inr 5)
   \<and> buffer (fst (snd hastySync)) \<noteq> Some []
   \<and> snd (snd hastyClose) = None
   \<and> map body (fst hastyClose) = [bigData, replicate 983040 (CHR ''a'') @ ''world'']
   \<and> map body (fst hastyClose) \<noteq> [bigData, ''world'']"
proof -
  have tf: "fs testFile = demoFS" "path testFile = ''/test.txt''" "buffer testFile = None"
    "\<not> closed testFile" "info testFile = Some testInfo"
    "flag testFile AND (O_WRONLY OR O_RDWR) \<noteq> 0" "\<not> fi_isDir testInfo"
    by (simp_all add: testFile_def newFile_def testInfo_def O_WRONLY_def O_RDWR_def)
  have cl: "client demoFS = demoClient" by (simp add: demoFS_def)
  have len: "length bigData = 1048576" by (simp add: bigData_def)
  have rest: "drop 65536 bigData = replicate 983040 (CHR ''a'')" by (simp add: bigData_def)
  have f1: "bigWrite = testFile\<lparr>buffer := Some bigData,
      offset := offset testFile + word_of_nat (length bigData), modified := True\<rparr>"
    unfolding bigWrite_def by (simp add: Write_def tf Let_def)
  have w1: "Write testFile bigData = (bigWrite, Inr 1048576)"
    unfolding f1 by (simp add: Write_def tf Let_def len)
  have doput: "Do hastyEnv h (putRequest demoClient p d) = Response 201 [] None 65536" for h p d
    by (simp add: hastyEnv_def)
  have sy: "hastySync = ([putRequest demoClient ''/test.txt'' bigData],
      bigWrite\<lparr>buffer := Some (replicate 983040 (CHR ''a'')), modified := False\<rparr>, None)"
    unfolding hastySync_def
    by (simp add: Sync_def f1 tf cl put_Response [OF doput] rest)
  have f3: "hastyWrite2 = bigWrite\<lparr>buffer := Some (replicate 983040 (CHR ''a'') @ ''world''),
      offset := offset bigWrite + word_of_nat (length ''world''), modified := True\<rparr>"
    unfolding hastyWrite2_def sy by (simp add: Write_def f1 tf Let_def)
  have w2: "Write (fst (snd hastySync)) ''world'' = (hastyWrite2, Inr 5)"
    unfolding f3 sy by (simp add: Write_def f1 tf Let_def)
  have hc: "snd (snd hastyClose) = None
      \<and> fst hastyClose = [putRequest demoClient ''/test.txt'' bigData,
            putRequest demoClient ''/test.txt'' (replicate 983040 (CHR ''a'') @ ''world'')]"
    unfolding hastyClose_def
    by (simp add: Close_def Let_def f3 f1 tf cl sy put_Response [OF doput])
  have a: "snd (snd hastySync) = None"
    "buffer (fst (snd hastySync)) = Some (replicate 983040 (CHR ''a''))"
    by (simp_all add: sy)
  have b: "snd (snd hastyClose) = None"
    "map body (fst hastyClose) = [bigData, replicate 983040 (CHR ''a'') @ ''world'']"
    by (simp_all add: hc putRequest_def newRequest_def)
  have c: "buffer (fst (snd hastySync)) \<noteq> Some []"
    "map body (fst hastyClose) \<noteq> [bigData, ''world'']"
    by (simp_all add: a b)
  from w1 a w2 b c show ?thesis by blast
qed

lemma propfindRequest_fields:
  "Method (propfindRequest c p d) = ''PROPFIND''"
  "url (propfindRequest c p d) = buildURL c p"
  "body (propfindRequest c p d) = buildPropfindBody"
  "header (propfindRequest c p d) = [(''Content-Type'', ''application/xml''), (''Depth'', fmt_d d)]"
  by (simp_all add: propfindRequest_def newRequest_def)

text \<open>
  C5. \<open>Readdir\<close> takes a nil \<open>dirInfos\<close> for a listing that is not loaded yet, and
  \<open>readDir\<close> returns the nil slice for a directory without children. On a handle of
  an empty directory the listing is therefore never cached: the first \<open>Readdir(1)\<close>
  returns the end-of-listing signal, and the next call asks the server again and, when a
  child has appeared in between, returns that child instead of the signal.
\<close>

theorem Readdir_empty_listing_reloaded:
  "OpenFile growingEnv demoFS ''/empty'' O_RDONLY 0 []
     = ([propfindRequest demoClient ''/empty'' 0], Inr emptyDir)
   \<and> snd (snd firstReaddir) = Inl EOF
   \<and> dirInfos (fst (snd firstReaddir)) = None
   \<and> snd (snd secondReaddir)
       = Inr [\<lparr>fi_name = ''new.txt'', fi_size = 4, fi_mode = 0x1A4, fi_modTime = 0,
                fi_isDir = False\<rparr>]"
proof -
  have cl: "client demoFS = demoClient" by (simp add: demoFS_def)
  have cp: "cleanPath demoFS ''/empty'' = ''/empty''" by (simp add: demo_eval)
  have urls: "buildURL demoClient ''/empty'' = ''/dav/empty''"
    "buildURL demoClient ''/empty/'' = ''/dav/empty''"
    by (simp_all add: demo_eval)
  have depth: "fmt_d 0 = ''0''" "fmt_d 1 = ''1''" by (simp_all add: fmt_d_def digit_char_def)
  let ?pf0 = "propfindRequest demoClient ''/empty'' 0"
  let ?pf1 = "propfindRequest demoClient ''/empty/'' 1"
  have do0: "Do growingEnv [] ?pf0
      = Response 207 [] (Some \<lparr>Responses = [entry ''/dav/empty/'' [] True]\<rparr>)
          (length buildPropfindBody)"
    by (simp add: growingEnv_def growingDo_def propfindRequest_fields urls)
  have do1: "Do growingEnv [?pf0] ?pf1
      = Response 207 [] (Some \<lparr>Responses = [entry ''/dav/empty/'' [] True]\<rparr>)
          (length buildPropfindBody)"
    by (simp add: growingEnv_def growingDo_def propfindRequest_fields urls depth)
  have do2: "Do growingEnv [?pf0, ?pf1] ?pf1
      = Response 207 [] (Some \<lparr>Responses = [entry ''/dav/empty/'' [] True,
                                  entry ''/dav/empty/new.txt'' ''4'' False]\<rparr>)
          (length buildPropfindBody)"
    by (simp add: growingEnv_def growingDo_def propfindRequest_fields urls depth)
  have pdir: "parseFileInfo growingEnv h (entry ''/dav/empty/'' [] True) ''/empty''
      = Inr \<lparr>fi_name = ''empty'', fi_size = 0, fi_mode = 0x1ED OR ModeDir, fi_modTime = 0,
               fi_isDir = True\<rparr>" for h
    by (simp add: parseFileInfo_def Let_def entry_def Base_def TrimPrefix_def HasPrefix_def
          growingEnv_def)
  have pnew: "parseFileInfo growingEnv h (entry ''/dav/empty/new.txt'' ''4'' False) ''/empty/''
      = Inr \<lparr>fi_name = ''new.txt'', fi_size = 4, fi_mode = 0x1A4, fi_modTime = 0,
               fi_isDir = False\<rparr>" for h
    by (simp add: parseFileInfo_def Let_def entry_def Base_def TrimPrefix_def HasPrefix_def
          ParseInt_def isDigit_def growingEnv_def)
  have st: "stat growingEnv demoClient ''/empty'' []
      = ([?pf0], Inr \<lparr>fi_name = ''empty'', fi_size = 0, fi_mode = 0x1ED OR ModeDir,
                         fi_modTime = 0, fi_isDir = True\<rparr>)"
    by (simp add: stat_def propfind_Response [OF do0] pdir)
  have op: "OpenFile growingEnv demoFS ''/empty'' O_RDONLY 0 [] = ([?pf0], Inr emptyDir)"
    by (simp add: OpenFile_def Let_def cp cl st emptyDir_def O_RDONLY_def O_CREATE_def
          O_TRUNC_def)
  have ed: "\<not> closed emptyDir" "dirInfos emptyDir = None" "fs emptyDir = demoFS"
    "path emptyDir = ''/empty''" "dirIndex emptyDir = 0"
    "info emptyDir = Some \<lparr>fi_name = ''empty'', fi_size = 0, fi_mode = 0x1ED OR ModeDir,
                              fi_modTime = 0, fi_isDir = True\<rparr>"
    by (simp_all add: emptyDir_def newFile_def)
  have dp: "dirPath ''/empty'' = ''/empty/''" by (simp add: dirPath_def HasSuffix_def)
  have rd1: "readDir growingEnv demoClient ''/empty'' [?pf0] = ([?pf0, ?pf1], Inr None)"
    using propfind_Response [OF do1]
    by (simp add: readDir_def Let_def dp [unfolded dirPath_def])
  have rd2: "readDir growingEnv demoClient ''/empty'' [?pf0, ?pf1]
      = ([?pf0, ?pf1, ?pf1], Inr (Some [\<lparr>fi_name = ''new.txt'', fi_size = 4, fi_mode = 0x1A4,
                                           fi_modTime = 0, fi_isDir = False\<rparr>]))"
    using propfind_Response [OF do2]
    by (simp add: readDir_def Let_def dp [unfolded dirPath_def] pnew)
  have one: "sint (1 :: 64 word) = 1" by simp
  have r1: "firstReaddir = ([?pf0, ?pf1], emptyDir, Inl EOF)"
    unfolding firstReaddir_def
    by (simp add: Readdir_def ed cl rd1 Let_def one prod_eq_iff emptyDir_def newFile_def)
  have r2: "snd (snd secondReaddir)
       = Inr [\<lparr>fi_name = ''new.txt'', fi_size = 4, fi_mode = 0x1A4, fi_modTime = 0,
                fi_isDir = False\<rparr>]"
    unfolding secondReaddir_def r1
    by (simp add: Readdir_def ed cl rd2 Let_def one goSlice_def wrap64_def)
  have a: "snd (snd firstReaddir) = Inl EOF" by (simp add: r1)
  have b: "dirInfos (fst (snd firstReaddir)) = None" by (simp add: r1 ed)
  from op a b r2 show ?thesis by blast
qed


end
